theory Spec2Isabelle
  imports Complex_Main
begin

section \<open>Numeric model\<close>

text \<open>
  The optimizers of \<^verbatim>\<open>pydrsom\<close> work on torch tensors and Python floats.  Finite
  floating-point numbers are idealised as real numbers; a parameter tensor is the list
  of its entries, and a dictionary keyed by the parameters (a direction, a trial step)
  is a list aligned with \<^verbatim>\<open>self._params\<close>.  Division by zero, the logarithm outside
  its domain and the exceptions the source raises are written out where the source can
  reach them.
\<close>

type_synonym tensor = "real list"
type_synonym direction = "tensor list"
type_synonym vec = "real list"
type_synonym mat = "real list list"

datatype error =
    ValueError string
  | TypeError string
  | KeyError string
  | IndexError
  | ZeroDivisionError
  | LinAlgError

definition dot :: "vec \<Rightarrow> vec \<Rightarrow> real" where
  "dot u v = sum_list (map2 (*) u v)"

text \<open>\<^verbatim>\<open>torch.linalg.norm(v)\<close>: the 2-norm of the flattened tensor.\<close>

definition linalg_norm :: "tensor \<Rightarrow> real" where
  "linalg_norm v = sqrt (sum_list (map (\<lambda>x. x ^ 2) v))"

section \<open>Division of tensors\<close>

text \<open>
  A quotient of two tensors follows IEEE 754: a zero divisor gives an infinity or a NaN,
  never an exception.  The reals carry no signed zero; a zero divisor is read as \<open>+0\<close>.
\<close>

datatype ratio = Finite real | PosInf | NegInf | NotANumber

definition tensor_div :: "real \<Rightarrow> real \<Rightarrow> ratio" where
  "tensor_div x y =
     (if y \<noteq> 0 then Finite (x / y)
      else if x > 0 then PosInf else if x < 0 then NegInf else NotANumber)"

section \<open>Normalisation of directions\<close>

text \<open>
  \<^verbatim>\<open>DRSOMB.normalize\<close> (drsom.py, drsomb.py):
  \<^verbatim>\<open>
    v_norm = torch.sqrt(sum(torch.linalg.norm(v) ** 2 for p, v in direction.items()))
    v_norm = 1 if v_norm == 0 else v_norm
    return {p: v / v_norm for p, v in direction.items()}
  \<close>
  Python's \<^verbatim>\<open>sum\<close> of no terms is the integer 0, which \<^verbatim>\<open>torch.sqrt\<close> refuses.  The norm
  is computed in floating point, where a tiny non-zero tensor can have the norm \<open>0\<close>: the
  routine \<^verbatim>\<open>torch.linalg.norm\<close> is the parameter \<open>nrm\<close> and the rounding of each arithmetic
  result the parameter \<open>rnd\<close>.  With \<open>linalg_norm\<close> and the identity they are exact.  The
  entries of the result are quotients of tensors.
\<close>

definition DRSOMB_v_norm :: "(tensor \<Rightarrow> real) \<Rightarrow> (real \<Rightarrow> real) \<Rightarrow> direction \<Rightarrow> error + real" where
  "DRSOMB_v_norm nrm rnd direction =
     (if direction = [] then Inl (TypeError ''sqrt(): argument must be Tensor, not int'')
      else Inr (rnd (sqrt (foldl (\<lambda>acc t. rnd (acc + t)) 0
                             (map (\<lambda>v. rnd (nrm v ^ 2)) direction)))))"

definition DRSOMB_normalize ::
  "(tensor \<Rightarrow> real) \<Rightarrow> (real \<Rightarrow> real) \<Rightarrow> direction \<Rightarrow> error + ratio list list" where
  "DRSOMB_normalize nrm rnd direction =
     (case DRSOMB_v_norm nrm rnd direction of
        Inl e \<Rightarrow> Inl e
      | Inr v_norm0 \<Rightarrow>
          (let v_norm = (if v_norm0 = 0 then 1 else v_norm0)
           in Inr (map (map (\<lambda>x. tensor_div x v_norm)) direction)))"

text \<open>
  \<^verbatim>\<open>DRSOMF.normalize\<close> (drsomnd_profile.py), on one flat tensor:
  \<^verbatim>\<open>
    v_norm = torch.linalg.norm(v)
    v_norm = 1 if v_norm == 0 else v_norm
    return v / v_norm
  \<close>
\<close>

definition DRSOMF_normalize :: "(tensor \<Rightarrow> real) \<Rightarrow> tensor \<Rightarrow> ratio list" where
  "DRSOMF_normalize nrm v =
     (let v_norm0 = nrm v;
          v_norm = (if v_norm0 = 0 then 1 else v_norm0)
      in map (\<lambda>x. tensor_div x v_norm) v)"

section \<open>Small dense linear algebra\<close>

text \<open>
  The reduced model lives in a subspace of dimension \<open>dim\<close> (the number of directions):
  \<open>Q\<close> and \<open>G\<close> are \<open>dim \<times> dim\<close> matrices stored by rows, \<open>c\<close> and \<open>alpha\<close> are vectors.
\<close>

definition matvec :: "mat \<Rightarrow> vec \<Rightarrow> vec" where
  \<comment> \<open>\<^verbatim>\<open>A @ x\<close>\<close>
  "matvec A x = map (\<lambda>row. dot row x) A"

definition mat_add :: "mat \<Rightarrow> mat \<Rightarrow> mat" where
  \<comment> \<open>\<^verbatim>\<open>A + B\<close>\<close>
  "mat_add A B = map2 (map2 (+)) A B"

definition mat_scale :: "mat \<Rightarrow> real \<Rightarrow> mat" where
  \<comment> \<open>\<^verbatim>\<open>A * s\<close>\<close>
  "mat_scale A s = map (map (\<lambda>x. x * s)) A"

definition eye :: "nat \<Rightarrow> mat" where
  \<comment> \<open>\<^verbatim>\<open>torch.eye(n)\<close>\<close>
  "eye n = map (\<lambda>i. map (\<lambda>j. if i = j then 1 else 0) [0..<n]) [0..<n]"

text \<open>
  \<^verbatim>\<open>def _norm(alpha, tr): return (tr @ alpha).dot(alpha).sqrt()\<close>
  (the metric norm of a step; the metric is positive semidefinite, so the radicand is
  not negative).
\<close>

definition norm_tr :: "vec \<Rightarrow> mat \<Rightarrow> real" where
  "norm_tr alpha tr = sqrt (dot (matvec tr alpha) alpha)"

section \<open>The trust-region solver of drsomnd\_profile.py\<close>

text \<open>
  \<^verbatim>\<open>_compute_root(Q, c, gamma, tr)\<close> calls two routines of \<^verbatim>\<open>torch.linalg\<close>, which
  are parameters of the model: \<open>eigh\<close> gives the eigenvalues \<open>D\<close> of the symmetric \<open>Q\<close>
  (the eigenvectors \<open>V\<close> are not used), and \<open>lsolve\<close> solves a square linear system or
  raises \<^verbatim>\<open>LinAlgError\<close>.
  \<^verbatim>\<open>
    D, V = torch.linalg.eigh(Q)
    lmin, lmax = min(D), max(D)
    lb = max(0, -lmin.item())
    lmax = lmax.item() if lmax > lb else lb + 1e4
    _lmb_this = gamma * lmax + max(1 - gamma, 0) * lb
    it = 0
    try:
      alpha = lsolve(Q + tr * _lmb_this, -c)
    except torch.linalg.LinAlgError as e:
      alpha = lsolve(Q + tr * (_lmb_this + 1e-4), -c)
    norm = _norm(alpha, tr)
    return it, _lmb_this, alpha, norm, True
  \<close>
\<close>

definition root_multiplier :: "vec \<Rightarrow> real \<Rightarrow> real" where
  \<comment> \<open>\<^verbatim>\<open>_lmb_this\<close> as computed from the eigenvalues \<open>D\<close> and \<open>gamma\<close>\<close>
  "root_multiplier D gamma =
     (let lmin = Min (set D); lmax = Max (set D);
          lb = max 0 (- lmin);
          lmax = (if lmax > lb then lmax else lb + 10000)
      in gamma * lmax + max (1 - gamma) 0 * lb)"

text \<open>
  The same four lines on Python floats, where every arithmetic result is rounded: the
  rounding is the parameter \<open>rnd\<close>.  With the identity this is \<open>root_multiplier\<close>.
\<close>

definition root_multiplier_fl :: "(real \<Rightarrow> real) \<Rightarrow> vec \<Rightarrow> real \<Rightarrow> real" where
  "root_multiplier_fl rnd D gam =
     (let lmin = Min (set D); lmax = Max (set D);
          lb = max 0 (- lmin);
          lmax = (if lmax > lb then lmax else rnd (lb + 10000))
      in rnd (rnd (gam * lmax) + rnd (max (rnd (1 - gam)) 0 * lb)))"

text \<open>
  Rounding to the nearest double: 53 significant bits, ties to the even significand
  (overflow and subnormal numbers apart).
\<close>

definition round_even :: "real \<Rightarrow> int" where
  "round_even x =
     (let f = \<lfloor>x\<rfloor>
      in if x - of_int f < 1 / 2 then f
         else if 1 / 2 < x - of_int f then f + 1
         else if even f then f else f + 1)"

definition rnd53 :: "real \<Rightarrow> real" where
  "rnd53 x =
     (if x = 0 then 0
      else let e = \<lfloor>log 2 \<bar>x\<bar>\<rfloor> - 52
           in of_int (round_even (x / 2 powr of_int e)) * 2 powr of_int e)"

definition compute_root ::
  "(mat \<Rightarrow> vec) \<Rightarrow> (mat \<Rightarrow> vec \<Rightarrow> error + vec) \<Rightarrow> mat \<Rightarrow> vec \<Rightarrow> real \<Rightarrow> mat
     \<Rightarrow> error + (nat \<times> real \<times> vec \<times> real \<times> bool)" where
  "compute_root eigh lsolve Q c gamma tr =
     (let D = eigh Q in
      if D = [] then Inl (ValueError ''min() arg is an empty sequence'')
      else
        let lmb_this = root_multiplier D gamma;
            it = 0
        in case (case lsolve (mat_add Q (mat_scale tr lmb_this)) (map uminus c) of
                   Inl LinAlgError \<Rightarrow>
                     lsolve (mat_add Q (mat_scale tr (lmb_this + 1 / 10000))) (map uminus c)
                 | r \<Rightarrow> r) of
             Inl e \<Rightarrow> Inl e
           | Inr alpha \<Rightarrow> Inr (it, lmb_this, alpha, norm_tr alpha tr, True))"

text \<open>
  The attributes shared by the optimizer classes, and those of \<^verbatim>\<open>DRSOMF\<close>
  (drsomnd\_profile.py) that its solver reads.
\<close>

record optimizer =
  Q :: mat
  c :: vec
  G :: mat
  iter :: nat
  alpha :: vec
  alpha_norm :: real
  gamma :: real
  gammalb :: real

record DRSOMF = optimizer +
  delta_max :: real

text \<open>
  \<^verbatim>\<open>DRSOMF.solve_alpha(self, Q, c, tr)\<close>:
  \<^verbatim>\<open>
    dim = c.size()[0]
    if self.iter == 0 or self.Q[dim - 1, dim - 1] < 1e-4:
      lmd = 0.0
      alpha = torch.zeros_like(c)
      alpha[0] = -c[0] / Q[0, 0] / (1 + self.gamma) if Q[0, 0] > 0 else 1e-4
      norm = _norm(alpha, tr)
      if norm > self.delta_max:
        alpha = alpha / alpha.norm() * self.delta_max
    else:
      it, lmd, alpha, norm, active = _compute_root(Q, c, self.gamma, tr)
    return alpha, norm
  \<close>
  An empty \<open>c\<close> makes \<^verbatim>\<open>self.Q[dim - 1, dim - 1]\<close> and \<^verbatim>\<open>alpha[0]\<close> fail.
\<close>

definition DRSOMF_solve_alpha ::
  "(mat \<Rightarrow> vec) \<Rightarrow> (mat \<Rightarrow> vec \<Rightarrow> error + vec) \<Rightarrow> DRSOMF \<Rightarrow> mat \<Rightarrow> vec \<Rightarrow> mat
     \<Rightarrow> error + (vec \<times> real)" where
  "DRSOMF_solve_alpha eigh lsolve self Qm cv tr =
     (let dim = length cv in
      if dim = 0 then Inl IndexError
      else if iter self = 0 \<or> Q self ! (dim - 1) ! (dim - 1) < 1 / 10000 then
        let alpha0 = (replicate dim 0)
                       [0 := (if Qm ! 0 ! 0 > 0 then - (cv ! 0) / (Qm ! 0 ! 0) / (1 + gamma self)
                              else 1 / 10000)];
            nrm = norm_tr alpha0 tr;
            alpha1 = (if nrm > delta_max self
                      then map (\<lambda>x. x / linalg_norm alpha0 * delta_max self) alpha0
                      else alpha0)
        in Inr (alpha1, nrm)
      else
        case compute_root eigh lsolve Qm cv (gamma self) tr of
          Inl e \<Rightarrow> Inl e
        | Inr (it, lmd, alpha', nrm, active) \<Rightarrow> Inr (alpha', nrm))"

text \<open>
  The predicted decrease of a step, \<^verbatim>\<open>- 1 / 2 * (Q @ alpha).dot(alpha) - c.dot(alpha)\<close>.
\<close>

definition trs_est_of :: "mat \<Rightarrow> vec \<Rightarrow> vec \<Rightarrow> real" where
  "trs_est_of Qm cv a = - 1 / 2 * dot (matvec Qm a) a - dot cv a"

text \<open>
  \<^verbatim>\<open>DRSOMF.compute_step(self, option_tr)\<close> stores the solver's step and returns the
  predicted decrease; the metric is the identity for \<^verbatim>\<open>'a'\<close> and \<open>G\<close> for \<^verbatim>\<open>'p'\<close>.
\<close>

definition DRSOMF_compute_step ::
  "(mat \<Rightarrow> vec) \<Rightarrow> (mat \<Rightarrow> vec \<Rightarrow> error + vec) \<Rightarrow> string \<Rightarrow> DRSOMF \<Rightarrow> error + (DRSOMF \<times> real)" where
  "DRSOMF_compute_step eigh lsolve option_tr self =
     (if option_tr \<noteq> ''a'' \<and> option_tr \<noteq> ''p''
      then Inl (ValueError ''unknown option for trust-region option'')
      else
        case DRSOMF_solve_alpha eigh lsolve self (Q self) (c self)
               (if option_tr = ''a'' then eye (length (c self)) else G self) of
          Inl e \<Rightarrow> Inl e
        | Inr (a, nrm) \<Rightarrow>
            Inr (self\<lparr>alpha := a, alpha_norm := nrm\<rparr>, trs_est_of (Q self) (c self) a))"

text \<open>
  Exact solvers for systems of one and two unknowns (Cramer's rule), used to run the
  model on concrete inputs: a singular system raises \<^verbatim>\<open>LinAlgError\<close>, as
  \<^verbatim>\<open>torch.linalg.solve\<close> does.
\<close>

definition lsolve2 :: "mat \<Rightarrow> vec \<Rightarrow> error + vec" where
  "lsolve2 A b =
     (case (A, b) of
        ([[a]], [b1]) \<Rightarrow> (if a = 0 then Inl LinAlgError else Inr [b1 / a])
      | ([[a11, a12], [a21, a22]], [b1, b2]) \<Rightarrow>
          (let det = a11 * a22 - a12 * a21
           in if det = 0 then Inl LinAlgError
              else Inr [(b1 * a22 - a12 * b2) / det, (a11 * b2 - b1 * a21) / det])
      | _ \<Rightarrow> Inl (ValueError ''lsolve2: only systems of one or two unknowns''))"

text \<open>
  The eigenvalues of a symmetric matrix of dimension one or two in closed form, in
  ascending order (\<^verbatim>\<open>torch.linalg.eigh\<close> reads the lower triangle).
\<close>

definition eigh2 :: "mat \<Rightarrow> vec" where
  "eigh2 A =
     (case A of
        [[a]] \<Rightarrow> [a]
      | [[a11, a12], [a21, a22]] \<Rightarrow>
          (let s = sqrt ((a11 - a22) ^ 2 + 4 * a21 ^ 2)
           in [(a11 + a22 - s) / 2, (a11 + a22 + s) / 2])
      | _ \<Rightarrow> [])"


section \<open>Contracts of the linear-algebra routines\<close>

text \<open>
  What the properties below assume of \<^verbatim>\<open>torch.linalg.eigh\<close> and \<^verbatim>\<open>torch.linalg.solve\<close>.
  For a symmetric matrix the smallest eigenvalue bounds the quadratic form from below
  (the Rayleigh quotient), \<open>lmin \<cdot> v\<^sup>T v \<le> v\<^sup>T A v\<close>; a solution returned by the solver
  satisfies the system, and the solver raises \<^verbatim>\<open>LinAlgError\<close> only for a singular matrix.
  \<open>eigh2\<close> and \<open>lsolve2\<close> meet these contracts.
\<close>

definition wf_mat :: "nat \<Rightarrow> mat \<Rightarrow> bool" where
  "wf_mat n A \<longleftrightarrow> length A = n \<and> (\<forall>row \<in> set A. length row = n)"

definition rayleigh_lower :: "mat \<Rightarrow> real \<Rightarrow> bool" where
  "rayleigh_lower A l \<longleftrightarrow> (\<forall>v. length v = length A \<longrightarrow> l * dot v v \<le> dot (matvec A v) v)"

definition eigh_contract :: "(mat \<Rightarrow> vec) \<Rightarrow> mat \<Rightarrow> bool" where
  "eigh_contract eigh A \<longleftrightarrow> eigh A \<noteq> [] \<and> rayleigh_lower A (Min (set (eigh A)))"

definition singular :: "mat \<Rightarrow> bool" where
  "singular A \<longleftrightarrow>
     (\<exists>v. length v = length A \<and> v \<noteq> replicate (length A) 0
          \<and> matvec A v = replicate (length A) 0)"

definition lsolve_contract :: "(mat \<Rightarrow> vec \<Rightarrow> error + vec) \<Rightarrow> bool" where
  "lsolve_contract lsolve \<longleftrightarrow>
     (\<forall>A b x. lsolve A b = Inr x \<longrightarrow> length x = length b \<and> matvec A x = b)
     \<and> (\<forall>A b. lsolve A b = Inl LinAlgError \<longrightarrow> singular A)"

section \<open>The optimizer of drsom.py\<close>

text \<open>
  \<^verbatim>\<open>DRSOMB\<close> keeps, besides the shared attributes, the parameter tensors
  (\<^verbatim>\<open>self._params\<close>, with their gradients \<^verbatim>\<open>p.grad\<close>), the per-parameter state dictionaries
  \<^verbatim>\<open>self.state[p]\<close> that hold the momentum buffers, the names of the momentum directions, and
  the trust-region scalars.  The rule objects \<^verbatim>\<open>DRSOMAdjustRules\<close> and \<^verbatim>\<open>DRSOMDecayRules\<close> and
  the enumerations come from \<^verbatim>\<open>drsom_utils\<close>, which is not among the sources: their fields
  and members are those drsom.py reads.
\<close>

record DRSOMAdjustRules =
  beta1 :: real
  beta2 :: real
  zeta1 :: real
  zeta2 :: real
  eta :: real

record DRSOMDecayRules =
  decay_radius_step :: real
  qp_freq :: int
  qp_rate :: real

datatype DRSOMModeQP = AutomaticDiff | FiniteDiff | Interpolation | OtherModeQP

datatype DRSOMQPSolver = QRegP | TRSP | OtherQPSolver

record DRSOMB = optimizer +
  params :: "tensor list"
  grad :: "tensor list"
  state :: "(string \<rightharpoonup> tensor) list"
  directions :: "string list"
  bool_normalize :: bool
  fixed_momentum :: real
  qpmode :: DRSOMModeQP
  qpsolver :: DRSOMQPSolver
  max_iter_adj :: int
  radius :: real
  radiusub :: real
  adjrule :: DRSOMAdjustRules
  decayrule :: DRSOMDecayRules
  delta :: real
  ghg :: real

text \<open>
  The objective as the optimizer sees it: \<^verbatim>\<open>closure()\<close> returns the loss at the current
  parameters and leaves the gradients in \<^verbatim>\<open>p.grad\<close>, \<^verbatim>\<open>closure(backward=False)\<close> returns the
  loss only, and \<^verbatim>\<open>torch.autograd.grad\<close> gives Hessian-vector products at the current point.
\<close>

record objective =
  loss_at :: "tensor list \<Rightarrow> real"
  grad_at :: "tensor list \<Rightarrow> tensor list"
  hvp_at :: "tensor list \<Rightarrow> direction \<Rightarrow> tensor list"

text \<open>
  The routines of \<^verbatim>\<open>drsom_utils\<close> and \<^verbatim>\<open>numpy.linalg\<close> that drsom.py calls, as parameters:
  \<^verbatim>\<open>TRS._solve_alpha(self, Q, c, tr)\<close>, \<^verbatim>\<open>decayrule.adjust_gamma_and_radius(self)\<close>,
  \<^verbatim>\<open>update_running_stat(v, buffer, rate)\<close> (the new content of the buffer),
  \<^verbatim>\<open>np.linalg.solve\<close> and \<^verbatim>\<open>np.linalg.lstsq\<close>.
\<close>

record utils =
  TRS_solve_alpha :: "DRSOMB \<Rightarrow> mat \<Rightarrow> vec \<Rightarrow> mat \<Rightarrow> error + (vec \<times> real)"
  adjust_gamma_and_radius :: "DRSOMB \<Rightarrow> DRSOMB"
  update_running_stat :: "tensor \<Rightarrow> tensor \<Rightarrow> real \<Rightarrow> tensor"
  np_solve :: "mat \<Rightarrow> vec \<Rightarrow> error + vec"
  np_lstsq :: "mat \<Rightarrow> vec \<Rightarrow> vec"

subsection \<open>Parameters and momentum buffers\<close>

definition zeros_like :: "tensor \<Rightarrow> tensor" where
  "zeros_like t = map (\<lambda>_. 0) t"

text \<open>
  \<^verbatim>\<open>
    def _clone_param(self):
        return [p.clone(memory_format=torch.contiguous_format) for p in self._params]
    def _set_param(self, params_data):
        for p, pdata in zip(self._params, params_data):
            p.copy_(pdata)
    def _use_new_d(self, d_new):
        for p in self._params:
            p.add_(d_new[p])
  \<close>
\<close>

definition clone_param :: "DRSOMB \<Rightarrow> tensor list" where
  "clone_param self = map (\<lambda>p. p) (params self)"

definition set_param :: "DRSOMB \<Rightarrow> tensor list \<Rightarrow> DRSOMB" where
  "set_param self params_data =
     self\<lparr>params := map (\<lambda>(p, pdata). pdata) (zip (params self) params_data)
                        @ drop (length params_data) (params self)\<rparr>"

definition use_new_d :: "DRSOMB \<Rightarrow> direction \<Rightarrow> DRSOMB" where
  "use_new_d self d_new = self\<lparr>params := map2 (map2 (+)) (params self) d_new\<rparr>"

text \<open>
  \<^verbatim>\<open>
    def _clear_momentum(self):
        for p in self._params:
            for k in self.directions:
                if k in self.state[p]:
                    self.state[p][k].zero_()
  \<close>
\<close>

definition clear_momentum :: "DRSOMB \<Rightarrow> DRSOMB" where
  "clear_momentum self =
     self\<lparr>state :=
       map (\<lambda>st. fold (\<lambda>k st. case st k of None \<Rightarrow> st | Some t \<Rightarrow> st(k \<mapsto> zeros_like t))
                       (directions self) st)
           (state self)\<rparr>"

text \<open>
  \<^verbatim>\<open>
    def _save_momentum(self, vlist, key):
        with torch.no_grad():
            for idx, p in enumerate(self._params):
                update_running_stat(vlist[p], self.state[p][key], self.decayrule.qp_rate)
  \<close>
  A state dictionary without the key raises \<^verbatim>\<open>KeyError\<close>.
\<close>

definition save_momentum :: "utils \<Rightarrow> DRSOMB \<Rightarrow> direction \<Rightarrow> string \<Rightarrow> error + DRSOMB" where
  "save_momentum u self vlist key =
     (if \<exists>st \<in> set (state self). st key = None then Inl (KeyError key)
      else Inr (self\<lparr>state :=
             map (\<lambda>(v, st). st(key \<mapsto> update_running_stat u v (the (st key)) (qp_rate (decayrule self))))
                 (zip vlist (state self))\<rparr>))"

text \<open>
  \<^verbatim>\<open>
    def update_fixed_momentum(self, grad, state, momentum):
        if "fixed_momentum_buffer" not in state:
            state["fixed_momentum_buffer"] = torch.zeros_like(grad, device=grad.device)
        buf = state["fixed_momentum_buffer"]
        buf.mul_(momentum).add_(-1.0, grad)
        return buf
    def use_fixed_momentum(self, momentum):
        return {p: self.update_fixed_momentum(p.grad.data, self.state[p], momentum)
                for p in self._params}
  \<close>
\<close>

definition update_fixed_momentum :: "tensor \<Rightarrow> (string \<rightharpoonup> tensor) \<Rightarrow> real \<Rightarrow> tensor" where
  "update_fixed_momentum g st momentum =
     (let buf = (case st ''fixed_momentum_buffer'' of None \<Rightarrow> zeros_like g | Some b \<Rightarrow> b)
      in map2 (\<lambda>b x. b * momentum + (- 1) * x) buf g)"

definition use_fixed_momentum :: "DRSOMB \<Rightarrow> real \<Rightarrow> direction \<times> DRSOMB" where
  "use_fixed_momentum self momentum =
     (let bufs = map (\<lambda>(g, st). update_fixed_momentum g st momentum) (zip (grad self) (state self))
      in (bufs,
          self\<lparr>state := map (\<lambda>(b, st). st(''fixed_momentum_buffer'' \<mapsto> b)) (zip bufs (state self))\<rparr>))"

text \<open>
  \<^verbatim>\<open>
    def gather_normalized_grad(self, bool_normalized=False, alpha=1):
        if bool_normalized:
            return self.normalize({p: alpha * p.grad.detach().clone() for p in self._params})
        return {p: alpha * p.grad.detach().clone() for p in self._params}
    def gather_normalize(self, k, bool_normalized=False):
        if bool_normalized:
            return self.normalize({p: self.state[p][k] for p in self._params})
        return {p: self.state[p][k] for p in self._params}
  \<close>
  The tensors of the step routine are finite: the directions are normalised with the exact
  norm, and the quotients, all finite then (lemma \<open>normalize_finite\<close>), are read back
  as reals.
\<close>

fun finite_part :: "ratio \<Rightarrow> real" where
  "finite_part (Finite x) = x"

definition normalized :: "direction \<Rightarrow> error + direction" where
  "normalized d =
     (case DRSOMB_normalize linalg_norm (\<lambda>x. x) d of
        Inl e \<Rightarrow> Inl e
      | Inr r \<Rightarrow> Inr (map (map finite_part) r))"

definition gather_normalized_grad :: "DRSOMB \<Rightarrow> bool \<Rightarrow> real \<Rightarrow> error + direction" where
  "gather_normalized_grad self bool_normalized a =
     (let d = map (map (\<lambda>x. a * x)) (grad self)
      in if bool_normalized then normalized d else Inr d)"

definition gather_normalize :: "DRSOMB \<Rightarrow> string \<Rightarrow> bool \<Rightarrow> error + direction" where
  "gather_normalize self k bool_normalized =
     (if \<exists>st \<in> set (state self). st k = None then Inl (KeyError k)
      else let d = map (\<lambda>st. the (st k)) (state self)
           in if bool_normalized then normalized d else Inr d)"

subsection \<open>Construction of the reduced model\<close>

text \<open>
  Matrices are filled entry by entry, as the source does with \<^verbatim>\<open>Q[i, j] = ...\<close>.  Three
  loops recur: accumulation into the upper triangle, assignment of the upper triangle, and
  the mirror loop \<^verbatim>\<open>for i in range(dim): for j in range(i): Q[i, j] = Q[j, i]\<close>.
\<close>

definition mat_zeros :: "nat \<Rightarrow> mat" where
  \<comment> \<open>\<^verbatim>\<open>torch.zeros((dim, dim))\<close>\<close>
  "mat_zeros n = replicate n (replicate n 0)"

definition mat_set :: "mat \<Rightarrow> nat \<Rightarrow> nat \<Rightarrow> real \<Rightarrow> mat" where
  \<comment> \<open>\<^verbatim>\<open>M[i, j] = v\<close>\<close>
  "mat_set M i j v = M[i := (M ! i)[j := v]]"

definition mirror_lower :: "nat \<Rightarrow> mat \<Rightarrow> mat" where
  "mirror_lower n M =
     fold (\<lambda>i M. fold (\<lambda>j M. mat_set M i j (M ! j ! i)) [0..<i] M) [0..<n] M"

definition accumulate_upper :: "nat \<Rightarrow> (nat \<Rightarrow> nat \<Rightarrow> real) \<Rightarrow> mat \<Rightarrow> mat" where
  \<comment> \<open>\<^verbatim>\<open>for i in range(dim): for j in range(i, dim): M[i, j] += f(i, j)\<close>\<close>
  "accumulate_upper n f M =
     fold (\<lambda>i M. fold (\<lambda>j M. mat_set M i j (M ! i ! j + f i j)) [i..<n] M) [0..<n] M"

definition assign_upper :: "nat \<Rightarrow> (nat \<Rightarrow> nat \<Rightarrow> real) \<Rightarrow> mat \<Rightarrow> mat" where
  \<comment> \<open>\<^verbatim>\<open>for i in range(dim): for j in range(i, dim): M[i, j] = f(i, j)\<close>\<close>
  "assign_upper n f M =
     fold (\<lambda>i M. fold (\<lambda>j M. mat_set M i j (f i j)) [i..<n] M) [0..<n] M"

definition inner_sum :: "direction \<Rightarrow> direction \<Rightarrow> real" where
  \<comment> \<open>the loop over the parameters, \<^verbatim>\<open>+= torch.mul(u, v).sum()\<close>\<close>
  "inner_sum u v = fold (\<lambda>(up, vp) acc. acc + dot up vp) (zip u v) 0"

text \<open>
  \<^verbatim>\<open>compute_Q_via_hvp(self, directions, style)\<close>: one Hessian-vector product per direction
  (only \<^verbatim>\<open>style == 0\<close> is implemented), then
  \<^verbatim>\<open>
    for i in range(dim):
        for j in range(i, dim):
            for idx, p in enumerate(self._params):
                u = directions[i][p]
                hv = self.Hv[j][idx]
                Q[i, j] += torch.mul(u, hv).sum().cpu().detach()
    for i in range(dim):
        for j in range(i):
            Q[i, j] = Q[j, i]
    return Q
  \<close>
  The cache \<^verbatim>\<open>self.Hv\<close> is overwritten in every call and is a local list here.
\<close>

definition compute_Q_via_hvp :: "objective \<Rightarrow> DRSOMB \<Rightarrow> direction list \<Rightarrow> int \<Rightarrow> error + mat" where
  "compute_Q_via_hvp f self dirs style =
     (let dim = length dirs in
      if dim > 0 \<and> style = 1 then Inl (ValueError ''the finite diff option is unused,'')
      else if dim > 0 \<and> style \<noteq> 0 then Inl (ValueError ''not implemented,'')
      else
        let Hv = map (hvp_at f (params self)) dirs;
            Q0 = mat_zeros dim;
            Q1 = accumulate_upper dim (\<lambda>i j. inner_sum (dirs ! i) (Hv ! j)) Q0
        in Inr (mirror_lower dim Q1))"

text \<open>
  \<^verbatim>\<open>
    def build_natural_basis(self, v):
        _len = len(v)
        a = [v[i] * v[j] / 2 if i == j else v[i] * v[j]
             for i in range(0, _len) for j in range(i, _len)]
        return a
  \<close>
\<close>

definition build_natural_basis :: "vec \<Rightarrow> vec" where
  "build_natural_basis v =
     concat (map (\<lambda>i. map (\<lambda>j. if i = j then v ! i * v ! j / 2 else v ! i * v ! j)
                           [i..<length v])
                 [0..<length v])"

definition coordinates :: "nat \<Rightarrow> nat \<Rightarrow> real \<Rightarrow> vec" where
  \<comment> \<open>\<^verbatim>\<open>arr = np.zeros(dim); arr[k] = scaler\<close>\<close>
  "coordinates n k scaler = (replicate n 0)[k := scaler]"

definition sampling :: "nat \<Rightarrow> nat \<Rightarrow> real \<Rightarrow> vec list" where
  "sampling n k_diag dlt =
     (let dim = n;
          a2 = concat (map (\<lambda>j. map (\<lambda>s. coordinates dim j (exp (- real s) * dlt)) [0..<k_diag])
                           [0..<dim]);
          a = (if dim > 1
               then map (\<lambda>s. map (\<lambda>x. x / 2)
                                 (fold (\<lambda>j acc. map2 (+) acc (coordinates dim j (exp (- real s) * dlt)))
                                       [0..<dim] (replicate dim 0)))
                        [0..<k_diag]
               else [])
      in a2 @ a)"

text \<open>
  The full-space step \<open>\<Sum>\<^sub>i a\<^sub>i d\<^sub>i\<close> for subspace coefficients \<open>a\<close>:
  \<^verbatim>\<open>
    d_new = {p: torch.zeros_like(p, requires_grad=False) for p in self._params}
    for p in self._params:
        for i in range(dim):
            u = directions[i][p]
            d_new[p].add_(u, alpha=alpha[i])
  \<close>
\<close>

definition build_direction :: "tensor list \<Rightarrow> direction list \<Rightarrow> vec \<Rightarrow> direction" where
  "build_direction ps dirs a =
     map (\<lambda>idx. fold (\<lambda>i d. map2 (\<lambda>x y. x + a ! i * y) d (dirs ! i ! idx))
                      [0..<length dirs] (zeros_like (ps ! idx)))
         [0..<length ps]"

text \<open>
  \<^verbatim>\<open>compute_Q_via_interpolation(self, directions, fx, c, p_copy, closure, delta)\<close> samples the
  objective at the trial points,
  \<^verbatim>\<open>
    for j in range(k):
        for p in self._params:
            d_new[p].zero_()
            for i in range(dim):
                u = directions[i][p]
                d_new[p].add_(u, alpha=a[j][i])
        self._use_new_d(d_new)
        loss_est = closure(backward=False).detach().cpu()
        df[j] = loss_est - fx - ff[j]
        self._set_param(p_copy)
  \<close>
  fits the
  packed upper triangle \<open>q\<close> by \<^verbatim>\<open>np.linalg.solve\<close> (square system) or \<^verbatim>\<open>np.linalg.lstsq\<close>,
  and unpacks it:
  \<^verbatim>\<open>
    Q = torch.zeros((dim, dim), requires_grad=False, device="cpu")
    for i in range(dim):
        for j in range(i, dim):
            Q[i, j] = q[int(j * (j + 1) / 2) + i]
    for i in range(dim):
        for j in range(0, i):
            Q[i, j] = Q[j, i]
  \<close>
  With no direction \<^verbatim>\<open>m, n = K.shape\<close> fails; a fit shorter than the packed triangle makes the
  index \<^verbatim>\<open>q[...]\<close> fail.  The diagnostic output under \<^verbatim>\<open>DRSOM_VERBOSE\<close> is left out.
\<close>

definition sample_at ::
  "objective \<Rightarrow> direction list \<Rightarrow> real \<Rightarrow> tensor list \<Rightarrow> vec \<Rightarrow> real \<Rightarrow> vec \<times> DRSOMB
     \<Rightarrow> vec \<times> DRSOMB" where
  \<comment> \<open>one sample: apply the trial point, evaluate, record the residual, set the parameters back\<close>
  "sample_at f dirs fx p_copy v ffj acc =
     (let (df, s) = acc;
          d_new = build_direction (params s) dirs v;
          s1 = use_new_d s d_new;
          loss_est = loss_at f (params s1)
      in (df @ [loss_est - fx - ffj], set_param s1 p_copy))"

definition compute_Q_via_interpolation ::
  "utils \<Rightarrow> objective \<Rightarrow> DRSOMB \<Rightarrow> direction list \<Rightarrow> real \<Rightarrow> vec \<Rightarrow> tensor list \<Rightarrow> real
     \<Rightarrow> error + (mat \<times> DRSOMB)" where
  "compute_Q_via_interpolation u f self dirs fx cv p_copy dlt =
     (let dim = length dirs;
          k_diag = 2;
          a = sampling dim k_diag dlt;
          ff = map (\<lambda>v. dot v cv) a;
          k = length a;
          K = map build_natural_basis a;
          (df, self1) = fold (\<lambda>j. sample_at f dirs fx p_copy (a ! j) (ff ! j)) [0..<k] ([], self)
      in if dim = 0 then Inl (ValueError ''not enough values to unpack'')
         else
           case (if k = dim * (dim + 1) div 2 then np_solve u K df else Inr (np_lstsq u K df)) of
             Inl e \<Rightarrow> Inl e
           | Inr q \<Rightarrow>
               if length q < dim * (dim + 1) div 2 then Inl IndexError
               else
                 let Q0 = mat_zeros dim;
                     Q1 = assign_upper dim (\<lambda>i j. q ! (j * (j + 1) div 2 + i)) Q0
                 in Inr (mirror_lower dim Q1, self1))"

text \<open>
  \<^verbatim>\<open>update_trust_region(self, p_copy, directions, fx, closure)\<close> builds \<open>G\<close> (the Gram matrix
  for the solvers \<^verbatim>\<open>QRegP\<close> and \<^verbatim>\<open>TRSP\<close>, the identity otherwise), \<open>c\<close>, and, every \<^verbatim>\<open>qp_freq\<close>
  iterations, \<open>Q\<close> by the configured strategy; it then stores \<open>Q\<close>, \<open>c\<close>, \<open>G\<close>.
\<close>

definition build_G :: "DRSOMB \<Rightarrow> direction list \<Rightarrow> mat" where
  "build_G self dirs =
     (let dim = length dirs; G0 = mat_zeros dim in
      if qpsolver self \<in> {QRegP, TRSP}
      then mirror_lower dim (accumulate_upper dim (\<lambda>i j. inner_sum (dirs ! j) (dirs ! i)) G0)
      else fold (\<lambda>i M. mat_set M i i 1) [0..<dim] G0)"

definition build_c :: "DRSOMB \<Rightarrow> direction list \<Rightarrow> vec" where
  "build_c self dirs = map (\<lambda>i. inner_sum (grad self) (dirs ! i)) [0..<length dirs]"

definition update_trust_region ::
  "utils \<Rightarrow> objective \<Rightarrow> DRSOMB \<Rightarrow> tensor list \<Rightarrow> direction list \<Rightarrow> real \<Rightarrow> error + DRSOMB" where
  "update_trust_region u f self p_copy dirs fx =
     (let Gm = build_G self dirs;
          cv = build_c self dirs
      in if qp_freq (decayrule self) = 0 then Inl ZeroDivisionError
         else if int (iter self) mod qp_freq (decayrule self) \<noteq> 0 then Inr self
         else
           case (case qpmode self of
                   FiniteDiff \<Rightarrow>
                     (case compute_Q_via_hvp f self dirs 1 of
                        Inl e \<Rightarrow> Inl e
                      | Inr Qm \<Rightarrow> Inr (Qm, self\<lparr>grad := map zeros_like (grad self)\<rparr>))
                 | AutomaticDiff \<Rightarrow>
                     (case compute_Q_via_hvp f self dirs 0 of
                        Inl e \<Rightarrow> Inl e
                      | Inr Qm \<Rightarrow> Inr (Qm, self\<lparr>grad := map zeros_like (grad self)\<rparr>))
                 | Interpolation \<Rightarrow>
                     compute_Q_via_interpolation u f self dirs fx cv p_copy (delta self)
                 | OtherModeQP \<Rightarrow> Inl (ValueError ''not handled yet'')) of
             Inl e \<Rightarrow> Inl e
           | Inr (Qm, self1) \<Rightarrow>
               if dirs = [] then Inl IndexError
               else Inr (self1\<lparr>ghg := (Qm ! 0 ! 0 + ghg self1 * real (iter self1)) / (real (iter self1) + 1),
                              Q := Qm, c := cv, G := Gm\<rparr>))"

subsection \<open>The step routine\<close>

text \<open>
  \<^verbatim>\<open>DRSOMB.compute_step\<close>:
  \<^verbatim>\<open>
    self.alpha, self.alpha_norm = self.solve_alpha(self.Q, self.c, tr=self.G)
    trs_est = -1 / 2 * (self.Q @ self.alpha).dot(self.alpha) - self.c.dot(self.alpha)
    return trs_est
  \<close>
\<close>

definition DRSOMB_compute_step :: "utils \<Rightarrow> DRSOMB \<Rightarrow> error + (DRSOMB \<times> real)" where
  "DRSOMB_compute_step u self =
     (case TRS_solve_alpha u self (Q self) (c self) (G self) of
        Inl e \<Rightarrow> Inl e
      | Inr (a, nrm) \<Rightarrow>
          Inr (self\<lparr>alpha := a, alpha_norm := nrm\<rparr>, trs_est_of (Q self) (c self) a))"

text \<open>
  The ratio \<^verbatim>\<open>rho = loss_dec / trs_est\<close> is a quotient of two tensors; every comparison
  with a NaN is false.
\<close>

fun ratio_le :: "ratio \<Rightarrow> real \<Rightarrow> bool" where
  "ratio_le (Finite x) z = (x \<le> z)"
| "ratio_le PosInf z = False"
| "ratio_le NegInf z = True"
| "ratio_le NotANumber z = False"

fun ratio_ge :: "ratio \<Rightarrow> real \<Rightarrow> bool" where
  "ratio_ge (Finite x) z = (x \<ge> z)"
| "ratio_ge PosInf z = True"
| "ratio_ge NegInf z = False"
| "ratio_ge NotANumber z = False"

fun ratio_gt :: "ratio \<Rightarrow> real \<Rightarrow> bool" where
  "ratio_gt (Finite x) z = (x > z)"
| "ratio_gt PosInf z = True"
| "ratio_gt NegInf z = False"
| "ratio_gt NotANumber z = False"

text \<open>
  The aggressive update \<^verbatim>\<open>max(self.gammalb, min(self.gamma / beta2, np.log(self.gamma)))\<close>.
  \<^verbatim>\<open>np.log\<close> is \<open>- \<infinity>\<close> at zero and a NaN below, and Python's \<^verbatim>\<open>min(a, b)\<close> keeps \<open>a\<close>
  unless \<open>b < a\<close>.
\<close>

definition aggressive_gamma :: "real \<Rightarrow> real \<Rightarrow> real \<Rightarrow> real" where
  "aggressive_gamma gam glb b2 =
     (if gam > 0 then max glb (min (gam / b2) (ln gam))
      else if gam = 0 then glb
      else max glb (gam / b2))"

text \<open>
  The update of the regularisation by the ratio:
  \<^verbatim>\<open>
    if rho <= self.adjrule.zeta1:
        self.gamma = max(self.gamma * self.adjrule.beta1, 1e-4)
        self.radius = max(self.radius * self.decayrule.decay_radius_step, 1e-8)
    else:
        if rho >= self.adjrule.zeta2:
            self.gamma = max(self.gammalb,
                             min(self.gamma / self.adjrule.beta2, np.log(self.gamma)))
            self.radius = min(self.radius / self.decayrule.decay_radius_step, self.radiusub)
  \<close>
  A division of Python floats by zero raises \<^verbatim>\<open>ZeroDivisionError\<close>.
\<close>

definition adjust_by_rho :: "ratio \<Rightarrow> DRSOMB \<Rightarrow> error + DRSOMB" where
  "adjust_by_rho rho self =
     (if ratio_le rho (zeta1 (adjrule self)) then
        Inr (self\<lparr>gamma := max (gamma self * beta1 (adjrule self)) (1 / 10000),
                  radius := max (radius self * decay_radius_step (decayrule self)) (1 / 100000000)\<rparr>)
      else if ratio_ge rho (zeta2 (adjrule self)) then
        if beta2 (adjrule self) = 0 \<or> decay_radius_step (decayrule self) = 0
        then Inl ZeroDivisionError
        else Inr (self\<lparr>gamma := aggressive_gamma (gamma self) (gammalb self) (beta2 (adjrule self)),
                       radius := min (radius self / decay_radius_step (decayrule self))
                                     (radiusub self)\<rparr>)
      else Inr self)"

text \<open>
  One pass of the inner loop of \<^verbatim>\<open>step\<close>.  A negative predicted decrease raises
  \<open>gamma\<close>, shrinks the radius and ends the pass with \<^verbatim>\<open>continue\<close>; otherwise the trial
  step is applied and evaluated, the regularisation is updated, and the step is accepted
  (\<^verbatim>\<open>break\<close>) or the parameters are set back.
  \<^verbatim>\<open>
    trs_est = self.compute_step()
    if trs_est < 0:
        self.gamma = max(self.gamma * self.adjrule.beta1, 1e-4)
        self.radius = max(self.radius / np.sqrt(self.adjrule.beta1), 1e-12)
        continue
    alpha = self.alpha
    ...
    self._use_new_d(d_new)
    loss_est = closure(backward=False).detach().cpu()
    loss_dec = loss - loss_est
    rho = loss_dec / trs_est
    ...
    acc_step = rho > self.adjrule.eta
    if not acc_step:
        self._set_param(p_copy)
    else:
        if "momentum_g" in self.directions:
            _loss = closure()
            raise ValueError("not implemented")
        elif "momentum" in self.directions:
            self._save_momentum(d_new, "momentum")
        else:
            pass
        break
    iter_adj += 1
  \<close>
\<close>

datatype outcome = Negative | Reject | Accept

definition inner_pass ::
  "utils \<Rightarrow> objective \<Rightarrow> tensor list \<Rightarrow> direction list \<Rightarrow> real \<Rightarrow> DRSOMB
     \<Rightarrow> error + (outcome \<times> DRSOMB)" where
  "inner_pass u f p_copy dirs loss self =
     (case DRSOMB_compute_step u self of
        Inl e \<Rightarrow> Inl e
      | Inr (s1, trs_est) \<Rightarrow>
          if trs_est < 0 then
            Inr (Negative,
                 s1\<lparr>gamma := max (gamma s1 * beta1 (adjrule s1)) (1 / 10000),
                    radius := max (radius s1 / sqrt (beta1 (adjrule s1))) (1 / 1000000000000)\<rparr>)
          else if length (alpha s1) < length dirs then Inl IndexError
          else
            let d_new = build_direction (params s1) dirs (alpha s1);
                s2 = use_new_d s1 d_new;
                loss_est = loss_at f (params s2);
                loss_dec = loss - loss_est;
                rho = tensor_div loss_dec trs_est
            in case adjust_by_rho rho s2 of
                 Inl e \<Rightarrow> Inl e
               | Inr s3 \<Rightarrow>
                   if \<not> ratio_gt rho (eta (adjrule s3)) then Inr (Reject, set_param s3 p_copy)
                   else if ''momentum_g'' \<in> set (directions s3)
                   then Inl (ValueError ''not implemented'')
                   else if ''momentum'' \<in> set (directions s3)
                   then (case save_momentum u s3 d_new ''momentum'' of
                           Inl e \<Rightarrow> Inl e
                         | Inr s4 \<Rightarrow> Inr (Accept, s4))
                   else Inr (Accept, s3))"

text \<open>
  The inner loop \<^verbatim>\<open>while iter_adj < self._max_iter_adj\<close>.  The fuel bounds the number of
  passes: \<open>None\<close> means that the loop is still running when the fuel is used up.  Only a
  rejected trial step reaches \<^verbatim>\<open>iter_adj += 1\<close>.
\<close>

fun inner_loop ::
  "nat \<Rightarrow> utils \<Rightarrow> objective \<Rightarrow> tensor list \<Rightarrow> direction list \<Rightarrow> real \<Rightarrow> DRSOMB \<Rightarrow> int \<Rightarrow> bool
     \<Rightarrow> (error + DRSOMB \<times> bool) option" where
  "inner_loop 0 u f p_copy dirs loss self iter_adj acc_step =
     (if iter_adj < max_iter_adj self then None else Some (Inr (self, acc_step)))"
| "inner_loop (Suc fuel) u f p_copy dirs loss self iter_adj acc_step =
     (if iter_adj < max_iter_adj self then
        case inner_pass u f p_copy dirs loss self of
          Inl e \<Rightarrow> Some (Inl e)
        | Inr (Negative, s) \<Rightarrow> inner_loop fuel u f p_copy dirs loss s iter_adj acc_step
        | Inr (Reject, s) \<Rightarrow> inner_loop fuel u f p_copy dirs loss s (iter_adj + 1) False
        | Inr (Accept, s) \<Rightarrow> Some (Inr (s, True))
      else Some (Inr (self, acc_step)))"

fun gather_momenta :: "DRSOMB \<Rightarrow> string list \<Rightarrow> bool \<Rightarrow> error + direction list" where
  "gather_momenta self [] b = Inr []"
| "gather_momenta self (k # ks) b =
     (case gather_normalize self k b of
        Inl e \<Rightarrow> Inl e
      | Inr d \<Rightarrow> (case gather_momenta self ks b of Inl e \<Rightarrow> Inl e | Inr ds \<Rightarrow> Inr (d # ds)))"

text \<open>
  \<^verbatim>\<open>DRSOMB.step(self, closure)\<close>:
  \<^verbatim>\<open>
    if closure is None:
        raise ValueError("must provide a closure for DRSOM")
    self.decayrule.adjust_gamma_and_radius(self)
    loss = closure()
    p_copy = self._clone_param()
    g_old = self.gather_normalized_grad(alpha=-1, bool_normalized=self.bool_normalize)
    if self.fixed_momentum < 0:
        directions = [g_old, *(self.gather_normalize(k, bool_normalized=self.bool_normalize)
                               for k in self.directions)]
    else:
        directions = [self.use_fixed_momentum(self.fixed_momentum)]
    self.update_trust_region(p_copy, directions, fx=loss.cpu().detach(), closure=closure)
    acc_step = False
    iter_adj = 1
    with torch.no_grad():
        while iter_adj < self._max_iter_adj:
            ...
        self.iter += 1
        if not acc_step:
            self._clear_momentum()
            self.gamma = self.gammalb
    return loss
  \<close>
\<close>

definition step_setup ::
  "utils \<Rightarrow> objective \<Rightarrow> DRSOMB \<Rightarrow> error + (real \<times> tensor list \<times> direction list \<times> DRSOMB)" where
  \<comment> \<open>up to \<^verbatim>\<open>update_trust_region\<close>: the loss, the snapshot, the directions, the optimizer\<close>
  "step_setup u f self =
     (let s0 = adjust_gamma_and_radius u self;
          loss = loss_at f (params s0);
          s1 = s0\<lparr>grad := grad_at f (params s0)\<rparr>;
          p_copy = clone_param s1
      in case gather_normalized_grad s1 (bool_normalize s1) (- 1) of
           Inl e \<Rightarrow> Inl e
         | Inr g_old \<Rightarrow>
             (case (if fixed_momentum s1 < 0
                    then (case gather_momenta s1 (directions s1) (bool_normalize s1) of
                            Inl e \<Rightarrow> Inl e
                          | Inr ms \<Rightarrow> Inr (g_old # ms, s1))
                    else (let (b, s) = use_fixed_momentum s1 (fixed_momentum s1)
                          in Inr ([b], s))) of
                Inl e \<Rightarrow> Inl e
              | Inr (dirs, s2) \<Rightarrow>
                  (case update_trust_region u f s2 p_copy dirs loss of
                     Inl e \<Rightarrow> Inl e
                   | Inr s3 \<Rightarrow> Inr (loss, p_copy, dirs, s3))))"

definition step_finish :: "DRSOMB \<Rightarrow> bool \<Rightarrow> DRSOMB" where
  \<comment> \<open>after the loop: \<^verbatim>\<open>self.iter += 1\<close> and the restart when no step was accepted\<close>
  "step_finish self acc_step =
     (let s5 = self\<lparr>iter := iter self + 1\<rparr>
      in if \<not> acc_step then (clear_momentum s5)\<lparr>gamma := gammalb s5\<rparr> else s5)"

definition step :: "nat \<Rightarrow> utils \<Rightarrow> objective option \<Rightarrow> DRSOMB \<Rightarrow> (error + real \<times> DRSOMB) option" where
  "step fuel u closure self =
     (case closure of
        None \<Rightarrow> Some (Inl (ValueError ''must provide a closure for DRSOM''))
      | Some f \<Rightarrow>
          (case step_setup u f self of
             Inl e \<Rightarrow> Some (Inl e)
           | Inr (loss, p_copy, dirs, s3) \<Rightarrow>
               (case inner_loop fuel u f p_copy dirs loss s3 1 False of
                  None \<Rightarrow> None
                | Some (Inl e) \<Rightarrow> Some (Inl e)
                | Some (Inr (s4, acc_step)) \<Rightarrow> Some (Inr (loss, step_finish s4 acc_step)))))"

text \<open>Every momentum buffer of a configured direction holds zeros only.\<close>

definition buffers_zero :: "DRSOMB \<Rightarrow> bool" where
  "buffers_zero self \<longleftrightarrow>
     (\<forall>st \<in> set (state self). \<forall>k \<in> set (directions self). \<forall>t. st k = Some t \<longrightarrow> (\<forall>x \<in> set t. x = 0))"

text \<open>
  During the inner loop the reduced model, the iteration count, the budget and the
  adjustment rules stay as \<^verbatim>\<open>update_trust_region\<close> left them.
\<close>

definition loop_frame :: "DRSOMB \<Rightarrow> DRSOMB \<Rightarrow> bool" where
  "loop_frame s0 s \<longleftrightarrow>
     Q s = Q s0 \<and> c s = c s0 \<and> G s = G s0 \<and> iter s = iter s0
     \<and> max_iter_adj s = max_iter_adj s0 \<and> adjrule s = adjrule s0"

subsection \<open>Construction\<close>

text \<open>
  \<^verbatim>\<open>DRSOMB.__init__\<close>: the momentum buffers start as zero tensors, one per parameter and
  direction name (\<^verbatim>\<open>mode.get_directions()\<close>), the reduced model as zero matrices of dimension
  two, and the scalars at their constants; the lower bound of \<open>gamma\<close> is read from the
  environment variable \<^verbatim>\<open>lb\<close> (default \<open>10\<^sup>-\<^sup>1\<^sup>0\<close>).  The gradients exist once the closure has run.
\<close>

definition DRSOMB_init ::
  "tensor list \<Rightarrow> int \<Rightarrow> real \<Rightarrow> DRSOMAdjustRules \<Rightarrow> DRSOMDecayRules \<Rightarrow> DRSOMModeQP \<Rightarrow> DRSOMQPSolver
     \<Rightarrow> bool \<Rightarrow> string list \<Rightarrow> real \<Rightarrow> DRSOMB" where
  "DRSOMB_init ps max_iter fixed_mom adjrules decayrules qpm qps nrmlz dirs lb =
     \<lparr>Q = mat_zeros 2, c = replicate 2 0, G = mat_zeros 2, iter = 0,
      alpha = replicate 2 0, alpha_norm = 1 / 10,
      gamma = 1 / 1000000, gammalb = lb,
      params = ps, grad = map zeros_like ps,
      state = map (\<lambda>p. fold (\<lambda>k st. st(k \<mapsto> zeros_like p)) dirs Map.empty) ps,
      directions = dirs, bool_normalize = nrmlz, fixed_momentum = fixed_mom,
      qpmode = qpm, qpsolver = qps, max_iter_adj = max_iter,
      radius = 10, radiusub = 10, adjrule = adjrules, decayrule = decayrules,
      delta = 1 / 1000, ghg = 0\<rparr>"

text \<open>
  The constants of the sibling optimizers (\<open>\<beta>\<^sub>1 = 50\<close>, \<open>\<beta>\<^sub>2 = 30\<close>, \<open>\<zeta>\<^sub>1 = 0.25\<close>, \<open>\<zeta>\<^sub>2 = 0.75\<close>,
  \<open>\<eta> = 0.08\<close>, \<^verbatim>\<open>decay_radius_step = 0.2\<close>), used for the concrete runs.
\<close>

definition adjrules0 :: DRSOMAdjustRules where
  "adjrules0 = \<lparr>beta1 = 50, beta2 = 30, zeta1 = 1 / 4, zeta2 = 3 / 4, eta = 2 / 25\<rparr>"

definition decayrules0 :: DRSOMDecayRules where
  "decayrules0 = \<lparr>decay_radius_step = 1 / 5, qp_freq = 1, qp_rate = 0\<rparr>"

text \<open>
  An optimizer over one scalar parameter with the momentum direction, as constructed, used
  for the concrete runs.
\<close>

definition scalar_optimizer :: "real \<Rightarrow> DRSOMB" where
  "scalar_optimizer x =
     DRSOMB_init [[x]] 15 (- 1) adjrules0 decayrules0 AutomaticDiff OtherQPSolver False
       [''momentum''] (1 / 10000000000)"

subsection \<open>A concrete setting\<close>

text \<open>
  For the concrete runs: the solver of drsomnd\_profile.py stands in for
  \<^verbatim>\<open>TRS._solve_alpha\<close> (with its constant \<^verbatim>\<open>delta_max = 1e1\<close>), no decay is due, the momentum
  buffer takes the accepted step, and the objective over one scalar parameter is
  \<open>f(x) = x\<^sup>2 + 16 \<cdot> max(0, 3/4 - x)\<^sup>2\<close>, a parabola with a steep wall left of \<open>3/4\<close>.
\<close>

definition TRS_like :: "DRSOMB \<Rightarrow> mat \<Rightarrow> vec \<Rightarrow> mat \<Rightarrow> error + (vec \<times> real)" where
  "TRS_like self Qm cv tr =
     DRSOMF_solve_alpha eigh2 lsolve2
       \<lparr>Q = Q self, c = c self, G = G self, iter = iter self, alpha = alpha self,
        alpha_norm = alpha_norm self, gamma = gamma self, gammalb = gammalb self,
        delta_max = 10\<rparr> Qm cv tr"

definition example_utils :: utils where
  "example_utils =
     \<lparr>TRS_solve_alpha = TRS_like,
      adjust_gamma_and_radius = (\<lambda>self. self),
      update_running_stat = (\<lambda>v buf rate. v),
      np_solve = lsolve2,
      np_lstsq = (\<lambda>K d. [])\<rparr>"

definition wall_objective :: objective where
  "wall_objective =
     \<lparr>loss_at = (\<lambda>ps. (ps ! 0 ! 0) ^ 2 + 16 * (max 0 (3 / 4 - ps ! 0 ! 0)) ^ 2),
      grad_at = (\<lambda>ps. [[2 * (ps ! 0 ! 0) - 32 * max 0 (3 / 4 - ps ! 0 ! 0)]]),
      hvp_at = (\<lambda>ps d. [[(if ps ! 0 ! 0 < 3 / 4 then 34 else 2) * (d ! 0 ! 0)]])\<rparr>"

text \<open>
  An optimizer at \<open>x = 1\<close> with \<open>\<gamma> = 1\<close>, a non-zero momentum buffer and room for a single
  trial step: the Newton-like step along the negative gradient runs into the wall and is
  rejected.
\<close>

definition rejecting_optimizer :: DRSOMB where
  "rejecting_optimizer =
     (scalar_optimizer 1)\<lparr>gamma := 1, max_iter_adj := 2, state := [[''momentum'' \<mapsto> [3]]]\<rparr>"

definition rejecting_model :: DRSOMB where
  \<comment> \<open>the same optimizer once \<^verbatim>\<open>update_trust_region\<close> has run\<close>
  "rejecting_model =
     rejecting_optimizer\<lparr>Q := [[8, - 12], [- 12, 18]], c := [- 4, 6], G := [[1, 0], [0, 1]],
                         grad := [[0]], ghg := 8\<rparr>"

text \<open>
  A quadratic objective over one tensor of two entries, \<open>f(x, y) = x\<^sup>2 + x y + 2 y\<^sup>2\<close>, and an
  optimizer at \<open>(1, 0)\<close> whose closure has run (gradient \<open>(2, 1)\<close>) and whose momentum buffer
  is \<open>(0, 1)\<close>.  Along the directions \<open>(- 2, - 1)\<close> and \<open>(0, 1)\<close> the reduced curvature is
  \<open>[[16, - 6], [- 6, 4]]\<close>; its packed upper triangle reproduces the samples of a quadratic
  exactly, so it is what the least-squares fit returns.
\<close>

definition quadratic_objective :: objective where
  "quadratic_objective =
     \<lparr>loss_at = (\<lambda>ps. (ps ! 0 ! 0) ^ 2 + ps ! 0 ! 0 * ps ! 0 ! 1 + 2 * (ps ! 0 ! 1) ^ 2),
      grad_at = (\<lambda>ps. [[2 * ps ! 0 ! 0 + ps ! 0 ! 1, ps ! 0 ! 0 + 4 * ps ! 0 ! 1]]),
      hvp_at = (\<lambda>ps d. [[2 * d ! 0 ! 0 + d ! 0 ! 1, d ! 0 ! 0 + 4 * d ! 0 ! 1]])\<rparr>"

definition plane_optimizer :: "DRSOMModeQP \<Rightarrow> DRSOMB" where
  "plane_optimizer qpm =
     (DRSOMB_init [[1, 0]] 15 (- 1) adjrules0 decayrules0 qpm OtherQPSolver False
        [''momentum''] (1 / 10000000000))
       \<lparr>grad := [[2, 1]], state := [[''momentum'' \<mapsto> [0, 1]]]\<rparr>"

definition fitted_utils :: utils where
  "fitted_utils = example_utils\<lparr>np_lstsq := (\<lambda>K d. [16, - 6, 4])\<rparr>"

text \<open>
  The objective \<open>f(x) = |x|\<close> over one scalar parameter, and an optimizer with a fixed
  momentum of \<open>1/2\<close> that has just stepped over the kink to \<open>x = - 1/10\<close>: its momentum
  buffer \<open>- 4\<close> still points down the slope it came from.
\<close>

definition abs_objective :: objective where
  "abs_objective =
     \<lparr>loss_at = (\<lambda>ps. \<bar>ps ! 0 ! 0\<bar>),
      grad_at = (\<lambda>ps. [[sgn (ps ! 0 ! 0)]]),
      hvp_at = (\<lambda>ps d. [[0]])\<rparr>"

definition stuck_optimizer :: DRSOMB where
  "stuck_optimizer =
     (DRSOMB_init [[- 1 / 10]] 15 (1 / 2) adjrules0 decayrules0 AutomaticDiff OtherQPSolver False
        [''momentum''] (1 / 10000000000))
       \<lparr>iter := 3, state := [[''fixed_momentum_buffer'' \<mapsto> [- 4]]]\<rparr>"

definition stuck_model :: DRSOMB where
  \<comment> \<open>the same optimizer once \<^verbatim>\<open>update_trust_region\<close> has run\<close>
  "stuck_model =
     stuck_optimizer\<lparr>Q := [[0]], c := [1], G := [[1]], grad := [[0]],
                      state := [[''fixed_momentum_buffer'' \<mapsto> [- 1]]]\<rparr>"

text \<open>
  The optimizer at \<open>x = 1\<close> again, now with a fixed momentum of \<open>1/2\<close>: the single direction is
  the fixed-momentum buffer, which \<^verbatim>\<open>use_fixed_momentum\<close> creates as \<open>0 \<cdot> 1/2 - 2 = - 2\<close>.
\<close>

definition fixed_optimizer :: DRSOMB where
  "fixed_optimizer = (scalar_optimizer 1)\<lparr>gamma := 1, max_iter_adj := 2, fixed_momentum := 1 / 2\<rparr>"

definition fixed_model :: DRSOMB where
  \<comment> \<open>the same optimizer once \<^verbatim>\<open>update_trust_region\<close> has run\<close>
  "fixed_model =
     fixed_optimizer\<lparr>Q := [[8]], c := [- 4], G := [[1]], grad := [[0]], ghg := 8,
                      state := [[''momentum'' \<mapsto> [0], ''fixed_momentum_buffer'' \<mapsto> [- 2]]]\<rparr>"

section \<open>Algebra of small vectors and matrices\<close>


lemma dot_Nil [simp]: "dot [] v = 0" "dot u [] = 0"
  by (simp_all add: dot_def)

lemma dot_Cons [simp]: "dot (x # u) (y # v) = x * y + dot u v"
  by (simp add: dot_def)

lemma dot_commute: "dot u v = dot v u"
proof (induction u arbitrary: v)
  case Nil then show ?case by simp
next
  case (Cons x u) then show ?case by (cases v) (simp_all add: mult.commute)
qed

lemma dot_add_left:
  "length u = length v \<Longrightarrow> dot (map2 (+) u v) w = dot u w + dot v w"
proof (induction u v arbitrary: w rule: list_induct2)
  case Nil then show ?case by simp
next
  case (Cons x xs y ys) then show ?case by (cases w) (simp_all add: algebra_simps)
qed

lemma dot_scale_left: "dot (map (\<lambda>x. x * s) u) w = s * dot u w"
proof (induction u arbitrary: w)
  case Nil then show ?case by simp
next
  case (Cons x u) then show ?case by (cases w) (simp_all add: algebra_simps)
qed

lemma dot_uminus_left: "dot (map uminus u) w = - dot u w"
proof (induction u arbitrary: w)
  case Nil then show ?case by simp
next
  case (Cons x u) then show ?case by (cases w) (simp_all add: algebra_simps)
qed

lemma dot_self_nonneg: "0 \<le> dot v v"
  by (induction v) simp_all

lemma length_matvec [simp]: "length (matvec A x) = length A"
  by (simp add: matvec_def)

lemma matvec_add:
  "length A = length B \<Longrightarrow> \<forall>i < length A. length (A ! i) = length (B ! i) \<Longrightarrow>
     matvec (mat_add A B) x = map2 (+) (matvec A x) (matvec B x)"
proof (induction A B rule: list_induct2)
  case Nil then show ?case by (simp add: matvec_def mat_add_def)
next
  case (Cons r A s B)
  have "length r = length s" using Cons.prems by (auto dest: spec [of _ 0])
  moreover have "\<forall>i < length A. length (A ! i) = length (B ! i)"
    using Cons.prems by auto
  ultimately show ?case using Cons.IH
    by (simp add: matvec_def mat_add_def dot_add_left)
qed

lemma matvec_scale: "matvec (mat_scale A s) x = map (\<lambda>y. y * s) (matvec A x)"
  by (simp add: matvec_def mat_scale_def dot_scale_left mult.commute)

lemma dot_unit_row_from:
  "dot (map (\<lambda>j. if i = j then 1 else 0) [k..<k + length x]) x
     = (if k \<le> i \<and> i < k + length x then x ! (i - k) else 0)"
proof (induction x arbitrary: k)
  case Nil then show ?case by simp
next
  case (Cons y x)
  have "[k..<k + length (y # x)] = k # [Suc k..<Suc k + length x]"
    using upt_rec [of k "Suc (k + length x)"] by simp
  then show ?case using Cons.IH [of "Suc k"]
    by (auto simp: Suc_diff_le)
qed

lemma dot_unit_row:
  "i < length x \<Longrightarrow> length x = n \<Longrightarrow> dot (map (\<lambda>j. if i = j then 1 else 0) [0..<n]) x = x ! i"
  using dot_unit_row_from [of i 0 x] by simp

lemma matvec_eye: "length x = n \<Longrightarrow> matvec (eye n) x = x"
  by (auto simp: matvec_def eye_def dot_unit_row intro!: nth_equalityI)


lemma dot_self_pos: "v \<noteq> replicate (length v) 0 \<Longrightarrow> 0 < dot v v"
proof (induction v)
  case Nil then show ?case by simp
next
  case (Cons x v)
  show ?case
  proof (cases "x = 0")
    case True
    with Cons.prems have "v \<noteq> replicate (length v) 0" by simp
    with Cons.IH True show ?thesis by simp
  next
    case False
    then have "0 < x ^ 2" by simp
    then have "0 < x * x" by (simp add: power2_eq_square)
    with dot_self_nonneg [of v] show ?thesis by simp
  qed
qed

lemma dot_zeros_left: "dot (replicate n 0) v = 0"
proof (induction n arbitrary: v)
  case 0 then show ?case by simp
next
  case (Suc n) then show ?case by (cases v) simp_all
qed

lemma wf_mat_eye: "wf_mat n (mat_scale (eye n) s)"
  by (auto simp: wf_mat_def mat_scale_def eye_def)

text \<open>The quadratic form of \<open>Q + s I\<close>.\<close>

lemma quad_form_shifted:
  assumes "wf_mat n A" and "length v = n"
  shows "dot (matvec (mat_add A (mat_scale (eye n) s)) v) v = dot (matvec A v) v + s * dot v v"
proof -
  have "matvec (mat_add A (mat_scale (eye n) s)) v
        = map2 (+) (matvec A v) (matvec (mat_scale (eye n) s) v)"
    using assms wf_mat_eye [of n s] by (intro matvec_add) (auto simp: wf_mat_def)
  also have "matvec (mat_scale (eye n) s) v = map (\<lambda>y. y * s) v"
    using assms by (simp add: matvec_scale matvec_eye)
  finally show ?thesis
    using assms by (simp add: dot_add_left dot_scale_left wf_mat_def)
qed

section \<open>Facts about the solver\<close>

lemma compute_root_multiplier:
  assumes "compute_root eigh lsolve Qm cv gam tr = Inr (it, lmb, a, nrm, act)"
  shows "lmb = root_multiplier (eigh Qm) gam" and "eigh Qm \<noteq> []"
  using assms
  by (auto simp: compute_root_def Let_def split: if_splits sum.splits error.splits)


lemma root_multiplier_ge_lb:
  assumes "0 \<le> gam"
  shows "max 0 (- Min (set D)) \<le> root_multiplier D gam"
proof -
  define lb where "lb = max 0 (- Min (set D))"
  define lmax' where "lmax' = (if Max (set D) > lb then Max (set D) else lb + 10000)"
  have lb0: "0 \<le> lb" by (simp add: lb_def)
  have gt: "lb < lmax'" by (simp add: lmax'_def)
  have eq: "root_multiplier D gam = gam * lmax' + max (1 - gam) 0 * lb"
    by (simp add: root_multiplier_def Let_def lb_def lmax'_def)
  show ?thesis
  proof (cases "gam \<le> 1")
    case True
    have "gam * lb \<le> gam * lmax'" using gt assms by (intro mult_left_mono) simp_all
    then have "gam * lb + (1 - gam) * lb \<le> gam * lmax' + (1 - gam) * lb" by simp
    moreover have "gam * lb + (1 - gam) * lb = lb" by (simp add: algebra_simps)
    ultimately show ?thesis using True gt unfolding eq lb_def [symmetric] by (simp add: max_def)
  next
    case False
    then have "1 * lmax' \<le> gam * lmax'" using gt lb0 by (intro mult_right_mono) simp_all
    then show ?thesis using False gt unfolding eq lb_def [symmetric] by (simp add: max_def)
  qed
qed

lemma root_multiplier_gt_lb:
  assumes "0 < gam"
  shows "max 0 (- Min (set D)) < root_multiplier D gam"
proof -
  define lb where "lb = max 0 (- Min (set D))"
  define lmax' where "lmax' = (if Max (set D) > lb then Max (set D) else lb + 10000)"
  have lb0: "0 \<le> lb" by (simp add: lb_def)
  have gt: "lb < lmax'" by (simp add: lmax'_def)
  have eq: "root_multiplier D gam = gam * lmax' + max (1 - gam) 0 * lb"
    by (simp add: root_multiplier_def Let_def lb_def lmax'_def)
  show ?thesis
  proof (cases "gam \<le> 1")
    case True
    have "gam * lb < gam * lmax'" using gt assms by simp
    then have "gam * lb + (1 - gam) * lb < gam * lmax' + (1 - gam) * lb" by simp
    moreover have "gam * lb + (1 - gam) * lb = lb" by (simp add: algebra_simps)
    ultimately show ?thesis using True gt unfolding eq lb_def [symmetric] by (simp add: max_def)
  next
    case False
    then have "1 * lmax' \<le> gam * lmax'" using gt lb0 by (intro mult_right_mono) simp_all
    then show ?thesis using False gt unfolding eq lb_def [symmetric] by (simp add: max_def)
  qed
qed

lemma compute_root_solves:
  assumes "lsolve_contract lsolve"
    and "compute_root eigh lsolve Qm cv gam tr = Inr (it, lmb, a, nrm, act)"
  shows "\<exists>mu. (mu = lmb \<or> mu = lmb + 1 / 10000)
            \<and> matvec (mat_add Qm (mat_scale tr mu)) a = map uminus cv \<and> length a = length cv"
    and "nrm = norm_tr a tr"
    and "lmb = root_multiplier (eigh Qm) gam"
  using assms
  by (auto simp: compute_root_def lsolve_contract_def Let_def
      split: if_splits sum.splits error.splits)

lemma shifted_not_singular:
  assumes "wf_mat n A" and "rayleigh_lower A l" and "0 < l + s"
  shows "\<not> singular (mat_add A (mat_scale (eye n) s))"
proof
  assume "singular (mat_add A (mat_scale (eye n) s))"
  moreover have len: "length (mat_add A (mat_scale (eye n) s)) = n"
    using assms(1) by (simp add: mat_add_def mat_scale_def eye_def wf_mat_def)
  ultimately obtain v where v: "length v = n" "v \<noteq> replicate n 0"
      "matvec (mat_add A (mat_scale (eye n) s)) v = replicate n 0"
    by (auto simp: singular_def)
  have "dot (matvec A v) v + s * dot v v = 0"
    using quad_form_shifted [OF assms(1) v(1), of s] v(3) by (simp add: dot_zeros_left)
  moreover have "l * dot v v \<le> dot (matvec A v) v"
    using assms(1,2) v(1) by (simp add: rayleigh_lower_def wf_mat_def)
  ultimately have "(l + s) * dot v v \<le> 0"
    by (simp add: algebra_simps)
  moreover have "0 < dot v v" using v(1,2) dot_self_pos [of v] by simp
  ultimately show False
    using assms(3) by (simp add: mult_le_0_iff)
qed

lemma trs_est_identity_nonneg:
  assumes wf: "wf_mat n Qm" and len: "length a = n"
    and ray: "rayleigh_lower Qm l"
    and mu: "max 0 (- l) \<le> mu"
    and sol: "matvec (mat_add Qm (mat_scale (eye n) mu)) a = map uminus cv"
  shows "0 \<le> trs_est_of Qm cv a"
proof -
  define qa where "qa = dot (matvec Qm a) a"
  define aa where "aa = dot a a"
  have "qa + mu * aa = - dot cv a"
    using quad_form_shifted [OF wf len, of mu] sol by (simp add: dot_uminus_left qa_def aa_def)
  then have trs: "trs_est_of Qm cv a = qa / 2 + mu * aa"
    by (simp add: trs_est_of_def qa_def)
  have r: "l * aa \<le> qa"
    using ray wf len by (simp add: rayleigh_lower_def wf_mat_def qa_def aa_def)
  have aa0: "0 \<le> aa" by (simp add: aa_def dot_self_nonneg)
  have "0 \<le> (l / 2 + mu) * aa"
    using mu aa0 by (intro mult_nonneg_nonneg) (auto simp: max_def split: if_splits)
  also have "\<dots> \<le> qa / 2 + mu * aa"
    using r by (simp add: algebra_simps)
  finally show ?thesis by (simp add: trs)
qed

lemma dot_diff_left:
  "length u = length v \<Longrightarrow> dot (map2 (-) u v) w = dot u w - dot v w"
proof (induction u v arbitrary: w rule: list_induct2)
  case Nil then show ?case by simp
next
  case (Cons x xs y ys) then show ?case by (cases w) (simp_all add: algebra_simps)
qed

lemma dot_diff_right:
  "length u = length v \<Longrightarrow> dot w (map2 (-) u v) = dot w u - dot w v"
  using dot_diff_left [of u v w] by (simp add: dot_commute)

lemma matvec_diff:
  "length x = length y \<Longrightarrow> matvec A (map2 (-) x y) = map2 (-) (matvec A x) (matvec A y)"
  by (induction A) (simp_all add: matvec_def dot_diff_right)

lemma dot_matvec_shifted:
  assumes "wf_mat n A" and "length v = n"
  shows "dot (matvec (mat_add A (mat_scale (eye n) s)) v) w = dot (matvec A v) w + s * dot v w"
proof -
  have "matvec (mat_add A (mat_scale (eye n) s)) v
        = map2 (+) (matvec A v) (matvec (mat_scale (eye n) s) v)"
    using assms wf_mat_eye [of n s] by (intro matvec_add) (auto simp: wf_mat_def)
  also have "matvec (mat_scale (eye n) s) v = map (\<lambda>y. y * s) v"
    using assms by (simp add: matvec_scale matvec_eye)
  finally show ?thesis
    using assms by (simp add: dot_add_left dot_scale_left wf_mat_def)
qed

lemma step_norm_antimono:
  assumes wf: "wf_mat n Qm" and ray: "rayleigh_lower Qm l"
    and l1: "0 \<le> l + l1" and lt: "l1 < l2"
    and len1: "length a1 = n" and len2: "length a2 = n"
    and s1: "matvec (mat_add Qm (mat_scale (eye n) l1)) a1 = map uminus cv"
    and s2: "matvec (mat_add Qm (mat_scale (eye n) l2)) a2 = map uminus cv"
  shows "dot a2 a2 \<le> dot a1 a1"
proof -
  define d where "d = map2 (-) a1 a2"
  have lend: "length d = n" using len1 len2 by (simp add: d_def)
  have e1: "dot (matvec Qm a1) d + l1 * dot a1 d = dot (map uminus cv) d"
    using dot_matvec_shifted [OF wf len1, of l1 d] s1 by simp
  have e2: "dot (matvec Qm a2) d + l2 * dot a2 d = dot (map uminus cv) d"
    using dot_matvec_shifted [OF wf len2, of l2 d] s2 by simp
  have qd: "dot (matvec Qm d) d = dot (matvec Qm a1) d - dot (matvec Qm a2) d"
    using len1 len2 by (simp add: d_def matvec_diff dot_diff_left)
  have dd: "dot d d = dot a1 d - dot a2 d"
    using len1 len2 by (simp add: d_def dot_diff_left)
  have "l1 * dot d d = l1 * dot a1 d - l1 * dot a2 d"
    unfolding dd by (simp add: algebra_simps)
  moreover have "(l2 - l1) * dot a2 d = l2 * dot a2 d - l1 * dot a2 d"
    by (simp add: algebra_simps)
  ultimately have "dot (matvec Qm d) d + l1 * dot d d = (l2 - l1) * dot a2 d"
    using e1 e2 qd by linarith
  moreover have "l * dot d d \<le> dot (matvec Qm d) d"
    using ray wf lend by (simp add: rayleigh_lower_def wf_mat_def)
  moreover have "0 \<le> (l + l1) * dot d d"
    using l1 dot_self_nonneg [of d] by (intro mult_nonneg_nonneg)
  ultimately have "0 \<le> (l2 - l1) * dot a2 d"
    by (simp add: algebra_simps)
  then have "0 \<le> dot a2 d"
    using lt by (simp add: zero_le_mult_iff)
  then have a21: "dot a2 a2 \<le> dot a2 a1"
    using len1 len2 by (simp add: d_def dot_diff_right)
  have "0 \<le> dot d d" by (rule dot_self_nonneg)
  also have "dot d d = dot a1 a1 - 2 * dot a2 a1 + dot a2 a2"
    using len1 len2 by (simp add: d_def dot_diff_left dot_diff_right dot_commute [of a1 a2])
  finally show ?thesis using a21 by simp
qed

lemma root_multiplier_strict_mono:
  assumes "g1 < g2"
  shows "root_multiplier D g1 < root_multiplier D g2"
proof -
  define lb where "lb = max 0 (- Min (set D))"
  define lmax' where "lmax' = (if Max (set D) > lb then Max (set D) else lb + 10000)"
  have lb0: "0 \<le> lb" by (simp add: lb_def)
  have gt: "lb < lmax'" by (simp add: lmax'_def)
  have eq: "\<And>g. root_multiplier D g = g * lmax' + max (1 - g) 0 * lb"
    by (simp add: root_multiplier_def Let_def lb_def lmax'_def)
  have low: "\<And>g. g \<le> 1 \<Longrightarrow> root_multiplier D g = lb + g * (lmax' - lb)"
    unfolding eq by (simp add: max_def algebra_simps)
  have high: "\<And>g. 1 \<le> g \<Longrightarrow> root_multiplier D g = g * lmax'"
    unfolding eq by (simp add: max_def)
  consider "g2 \<le> 1" | "1 \<le> g1" | "g1 < 1" "1 < g2" using assms by linarith
  then show ?thesis
  proof cases
    case 1
    then have "g1 \<le> 1" using assms by simp
    have "g1 * (lmax' - lb) < g2 * (lmax' - lb)"
      using assms gt by simp
    then show ?thesis using low [OF 1] low [OF \<open>g1 \<le> 1\<close>] by simp
  next
    case 2
    then have "1 \<le> g2" using assms by simp
    have "g1 * lmax' < g2 * lmax'"
      using assms gt lb0 by simp
    then show ?thesis using high [OF 2] high [OF \<open>1 \<le> g2\<close>] by simp
  next
    case 3
    have "g1 * (lmax' - lb) < 1 * (lmax' - lb)"
      using 3 gt by simp
    then have "root_multiplier D g1 < root_multiplier D 1"
      using low [of g1] low [of 1] 3 by simp
    also have "root_multiplier D 1 < root_multiplier D g2"
    proof -
      have "1 * lmax' < g2 * lmax'"
        using 3 gt lb0 by simp
      then show ?thesis using high [of g2] high [of 1] 3 by simp
    qed
    finally show ?thesis .
  qed
qed


lemma length_one_vec: "length v = Suc 0 \<Longrightarrow> \<exists>x. v = [x]"
  by (cases v) simp_all

lemma length_two_vec: "length v = 2 \<Longrightarrow> \<exists>x y. v = [x, y]"
  by (cases v; cases "tl v") auto

lemma psd_2x2:
  fixes p r b x y :: real
  assumes "0 \<le> p" and "0 \<le> r" and "p * r = b ^ 2"
  shows "0 \<le> p * x ^ 2 + 2 * b * x * y + r * y ^ 2"
proof (cases "p = 0")
  case True
  with assms(3) have "b = 0" by simp
  with True assms(2) show ?thesis by simp
next
  case False
  with assms(1) have p: "0 < p" by simp
  have "p * (p * x ^ 2 + 2 * b * x * y + r * y ^ 2) = (p * x + b * y) ^ 2 + (p * r - b ^ 2) * y ^ 2"
    by (simp add: power2_eq_square algebra_simps)
  also have "\<dots> = (p * x + b * y) ^ 2" using assms(3) by simp
  finally have "0 \<le> p * (p * x ^ 2 + 2 * b * x * y + r * y ^ 2)" by simp
  then show ?thesis using p by (simp add: zero_le_mult_iff)
qed

lemma eigh2_contract_1: "eigh_contract eigh2 [[a]]"
proof -
  have "\<And>v. length v = Suc 0 \<Longrightarrow> a * dot v v \<le> dot (matvec [[a]] v) v"
  proof -
    fix v :: vec assume "length v = Suc 0"
    then obtain x where "v = [x]" using length_one_vec by blast
    then show "a * dot v v \<le> dot (matvec [[a]] v) v"
      by (simp add: matvec_def)
  qed
  then show ?thesis
    by (simp add: eigh_contract_def eigh2_def rayleigh_lower_def)
qed

lemma eigh2_contract_2: "eigh_contract eigh2 [[a, b], [b, d]]"
proof -
  define s where "s = sqrt ((a - d) ^ 2 + 4 * b ^ 2)"
  define lo where "lo = (a + d - s) / 2"
  have s0: "0 \<le> s" by (simp add: s_def)
  have s2: "s ^ 2 = (a - d) ^ 2 + 4 * b ^ 2" by (simp add: s_def)
  have sge: "\<bar>a - d\<bar> \<le> s"
  proof -
    have "\<bar>a - d\<bar> = sqrt ((a - d) ^ 2)" by simp
    also have "\<dots> \<le> s" unfolding s_def by (intro real_sqrt_le_mono) simp
    finally show ?thesis .
  qed
  have e: "eigh2 [[a, b], [b, d]] = [lo, (a + d + s) / 2]"
    by (simp add: eigh2_def Let_def s_def lo_def)
  have m: "Min (set (eigh2 [[a, b], [b, d]])) = lo"
    using s0 by (simp add: e lo_def min_def)
  have "\<And>v. length v = 2 \<Longrightarrow> lo * dot v v \<le> dot (matvec [[a, b], [b, d]] v) v"
  proof -
    fix v :: vec assume "length v = 2"
    then obtain x y where v: "v = [x, y]" using length_two_vec by blast
    have p: "0 \<le> a - lo" using sge by (simp add: lo_def)
    have r: "0 \<le> d - lo" using sge by (simp add: lo_def)
    have "a - lo = (s + (a - d)) / 2" and "d - lo = (s - (a - d)) / 2"
      by (simp_all add: lo_def field_simps)
    then have "(a - lo) * (d - lo) = ((s + (a - d)) / 2) * ((s - (a - d)) / 2)"
      by (simp only:)
    also have "\<dots> = ((s + (a - d)) * (s - (a - d))) / 4"
      by simp
    also have "(s + (a - d)) * (s - (a - d)) = s ^ 2 - (a - d) ^ 2"
      by (simp add: power2_eq_square algebra_simps)
    also have "(s ^ 2 - (a - d) ^ 2) / 4 = b ^ 2" by (simp add: s2)
    finally have "0 \<le> (a - lo) * x ^ 2 + 2 * b * x * y + (d - lo) * y ^ 2"
      using p r by (intro psd_2x2)
    then show "lo * dot v v \<le> dot (matvec [[a, b], [b, d]] v) v"
      by (simp add: v matvec_def power2_eq_square algebra_simps)
  qed
  then show ?thesis
    unfolding eigh_contract_def rayleigh_lower_def m by (simp add: e)
qed

lemma cramer2:
  fixes a11 a12 a21 a22 b1 b2 :: real
  assumes "a11 * a22 - a12 * a21 \<noteq> 0"
  shows "a11 * ((b1 * a22 - a12 * b2) / (a11 * a22 - a12 * a21))
           + a12 * ((a11 * b2 - b1 * a21) / (a11 * a22 - a12 * a21)) = b1"
    and "a21 * ((b1 * a22 - a12 * b2) / (a11 * a22 - a12 * a21))
           + a22 * ((a11 * b2 - b1 * a21) / (a11 * a22 - a12 * a21)) = b2"
proof -
  define det where "det = a11 * a22 - a12 * a21"
  have d: "det \<noteq> 0" using assms by (simp add: det_def)
  have "a11 * ((b1 * a22 - a12 * b2) / det) + a12 * ((a11 * b2 - b1 * a21) / det)
        = (a11 * (b1 * a22 - a12 * b2) + a12 * (a11 * b2 - b1 * a21)) / det"
    by (simp add: add_divide_distrib)
  also have "a11 * (b1 * a22 - a12 * b2) + a12 * (a11 * b2 - b1 * a21) = b1 * det"
    by (simp add: det_def algebra_simps)
  finally show "a11 * ((b1 * a22 - a12 * b2) / (a11 * a22 - a12 * a21))
           + a12 * ((a11 * b2 - b1 * a21) / (a11 * a22 - a12 * a21)) = b1"
    using d by (simp add: det_def)
  have "a21 * ((b1 * a22 - a12 * b2) / det) + a22 * ((a11 * b2 - b1 * a21) / det)
        = (a21 * (b1 * a22 - a12 * b2) + a22 * (a11 * b2 - b1 * a21)) / det"
    by (simp add: add_divide_distrib)
  also have "a21 * (b1 * a22 - a12 * b2) + a22 * (a11 * b2 - b1 * a21) = b2 * det"
    by (simp add: det_def algebra_simps)
  finally show "a21 * ((b1 * a22 - a12 * b2) / (a11 * a22 - a12 * a21))
           + a22 * ((a11 * b2 - b1 * a21) / (a11 * a22 - a12 * a21)) = b2"
    using d by (simp add: det_def)
qed

lemma lsolve2_cases:
  assumes "lsolve2 A b = r" and "r \<noteq> Inl (ValueError ''lsolve2: only systems of one or two unknowns'')"
  obtains (one) a b1 where "A = [[a]]" "b = [b1]"
    | (two) a11 a12 a21 a22 b1 b2 where "A = [[a11, a12], [a21, a22]]" "b = [b1, b2]"
  using assms by (auto simp: lsolve2_def split: list.splits)

lemma lsolve2_sound:
  assumes "lsolve2 A b = Inr x"
  shows "length x = length b \<and> matvec A x = b"
proof -
  have "(Inr x :: error + vec) \<noteq> Inl (ValueError ''lsolve2: only systems of one or two unknowns'')"
    by simp
  with assms show ?thesis
  proof (cases rule: lsolve2_cases)
    case (one a b1)
    with assms show ?thesis
      by (auto simp: lsolve2_def matvec_def split: if_splits)
  next
    case (two a11 a12 a21 a22 b1 b2)
    with assms have det: "a11 * a22 - a12 * a21 \<noteq> 0"
      and x: "x = [(b1 * a22 - a12 * b2) / (a11 * a22 - a12 * a21),
                   (a11 * b2 - b1 * a21) / (a11 * a22 - a12 * a21)]"
      by (auto simp: lsolve2_def Let_def split: if_splits)
    show ?thesis
      using cramer2 [OF det, of b1 b2] by (simp add: two x matvec_def)
  qed
qed

lemma lsolve2_singular:
  assumes "lsolve2 A b = Inl LinAlgError"
  shows "singular A"
proof -
  have "(Inl LinAlgError :: error + vec) \<noteq> Inl (ValueError ''lsolve2: only systems of one or two unknowns'')"
    by simp
  with assms show ?thesis
  proof (cases rule: lsolve2_cases)
    case (one a b1)
    with assms have "a = 0" by (auto simp: lsolve2_def split: if_splits)
    then have "matvec A [1] = replicate (length A) 0" by (simp add: one matvec_def)
    then show ?thesis
      unfolding singular_def by (intro exI [of _ "[1]"]) (simp add: one)
  next
    case (two a11 a12 a21 a22 b1 b2)
    with assms have det: "a11 * a22 = a12 * a21"
      by (auto simp: lsolve2_def Let_def split: if_splits)
    show ?thesis
    proof (cases "a22 = 0 \<and> a21 = 0")
      case True
      show ?thesis
      proof (cases "a11 = 0 \<and> a12 = 0")
        case True
        with \<open>a22 = 0 \<and> a21 = 0\<close> have "matvec A [1, 0] = replicate (length A) 0"
          by (simp add: two matvec_def)
        then show ?thesis
          unfolding singular_def by (intro exI [of _ "[1, 0]"]) (simp add: two)
      next
        case False
        with \<open>a22 = 0 \<and> a21 = 0\<close> have "matvec A [a12, - a11] = replicate (length A) 0"
          by (simp add: two matvec_def)
        moreover have "[a12, - a11] \<noteq> replicate (length A) 0"
          using False by (auto simp: two)
        ultimately show ?thesis
          unfolding singular_def by (intro exI [of _ "[a12, - a11]"]) (simp add: two)
      qed
    next
      case False
      have "matvec A [a22, - a21] = replicate (length A) 0"
        using det by (simp add: two matvec_def mult.commute)
      moreover have "[a22, - a21] \<noteq> replicate (length A) 0"
        using False by (auto simp: two)
      ultimately show ?thesis
        unfolding singular_def by (intro exI [of _ "[a22, - a21]"]) (simp add: two)
    qed
  qed
qed

lemma lsolve2_contract: "lsolve_contract lsolve2"
  unfolding lsolve_contract_def using lsolve2_sound lsolve2_singular by blast


lemma eigh2_equal_diagonal: "eigh2 [[a, b], [b, a]] = [a - \<bar>b\<bar>, a + \<bar>b\<bar>]"
proof -
  have "(a - a) ^ 2 + 4 * b ^ 2 = (2 * b) ^ 2" by (simp add: power2_eq_square)
  then have "sqrt ((a - a) ^ 2 + 4 * b ^ 2) = \<bar>2 * b\<bar>"
    by (simp only: real_sqrt_abs)
  then have "sqrt ((a - a) ^ 2 + 4 * b ^ 2) = 2 * \<bar>b\<bar>"
    by (simp add: abs_mult)
  then show ?thesis by (simp add: eigh2_def Let_def)
qed

lemma compute_root_identity_no_retry:
  assumes ls: "lsolve_contract lsolve" and eg: "eigh_contract eigh Qm"
    and wf: "wf_mat n Qm" and g: "0 < gam"
    and res: "compute_root eigh lsolve Qm cv gam (eye n) = Inr (it, lmb, a, nrm, act)"
  shows "matvec (mat_add Qm (mat_scale (eye n) lmb)) a = map uminus cv"
    and "length a = length cv"
proof -
  define l where "l = Min (set (eigh Qm))"
  have lmb: "lmb = root_multiplier (eigh Qm) gam"
    using res by (rule compute_root_multiplier)
  have "max 0 (- l) < lmb"
    unfolding lmb l_def using g by (rule root_multiplier_gt_lb)
  then have pos: "0 < l + lmb" by simp
  have ray: "rayleigh_lower Qm l" using eg by (simp add: eigh_contract_def l_def)
  have ns: "\<not> singular (mat_add Qm (mat_scale (eye n) lmb))"
    using wf ray pos by (rule shifted_not_singular)
  have "lsolve (mat_add Qm (mat_scale (eye n) lmb)) (map uminus cv) \<noteq> Inl LinAlgError"
    using ls ns by (auto simp: lsolve_contract_def)
  then have "lsolve (mat_add Qm (mat_scale (eye n) lmb)) (map uminus cv) = Inr a"
    using res unfolding lmb
    by (auto simp: compute_root_def Let_def split: if_splits sum.splits error.splits)
  then show "matvec (mat_add Qm (mat_scale (eye n) lmb)) a = map uminus cv"
    and "length a = length cv"
    using ls by (auto simp: lsolve_contract_def)
qed

lemma compute_root_identity_trs_nonneg:
  assumes ls: "lsolve_contract lsolve" and eg: "eigh_contract eigh Qm"
    and wf: "wf_mat (length cv) Qm" and g: "0 \<le> gam"
    and res: "compute_root eigh lsolve Qm cv gam (eye (length cv)) = Inr (it, lmb, a, nrm, act)"
  shows "0 \<le> trs_est_of Qm cv a"
proof -
  define l where "l = Min (set (eigh Qm))"
  have lmb: "lmb = root_multiplier (eigh Qm) gam"
    using res by (rule compute_root_multiplier)
  have lb: "max 0 (- l) \<le> lmb"
    unfolding lmb l_def using g by (rule root_multiplier_ge_lb)
  have ray: "rayleigh_lower Qm l" using eg by (simp add: eigh_contract_def l_def)
  from compute_root_solves(1) [OF ls res]
  obtain mu where mu: "mu = lmb \<or> mu = lmb + 1 / 10000"
    and sol: "matvec (mat_add Qm (mat_scale (eye (length cv)) mu)) a = map uminus cv"
    and len: "length a = length cv"
    by blast
  have "max 0 (- l) \<le> mu" using lb mu by auto
  with wf len ray show ?thesis using sol by (rule trs_est_identity_nonneg)
qed

lemma eye_2: "eye 2 = [[1, 0], [0, 1]]"
  by (simp add: eye_def numeral_2_eq_2)

lemmas eval_defs = compute_root_def root_multiplier_def lsolve2_def mat_add_def
      mat_scale_def norm_tr_def matvec_def Let_def

text \<open>The fallback step of \<^verbatim>\<open>solve_alpha\<close> moves along the first direction only.\<close>

lemma dot_zeros_right: "dot v (replicate n 0) = 0"
  using dot_zeros_left [of n v] by (simp add: dot_commute)

lemma first_coordinate_forms:
  assumes wf: "wf_mat (Suc m) Qm" and len: "length cv = Suc m"
  shows "trs_est_of Qm cv (x # replicate m 0) = - 1 / 2 * (Qm ! 0 ! 0) * x * x - cv ! 0 * x"
proof -
  from len obtain c0 cs where cv: "cv = c0 # cs" by (cases cv) auto
  from wf obtain r0 rows where Qm: "Qm = r0 # rows" by (cases Qm) (auto simp: wf_mat_def)
  from wf Qm have "length r0 = Suc m" by (simp add: wf_mat_def)
  then obtain q00 r where r0: "r0 = q00 # r" by (cases r0) auto
  have "dot (matvec Qm (x # replicate m 0)) (x # replicate m 0) = q00 * x * x"
    by (simp add: Qm r0 matvec_def dot_zeros_right)
  then show ?thesis
    by (simp add: trs_est_of_def cv Qm r0 dot_zeros_right)
qed

lemma first_coordinate_norms:
  "linalg_norm (x # replicate m 0) = \<bar>x\<bar>"
  "norm_tr (x # replicate m 0) (eye (Suc m)) = \<bar>x\<bar>"
proof -
  have z: "sum_list (replicate m (0::real)) = 0"
    by (induction m) simp_all
  show "linalg_norm (x # replicate m 0) = \<bar>x\<bar>"
    by (simp add: linalg_norm_def z)
  have "matvec (eye (Suc m)) (x # replicate m 0) = x # replicate m 0"
    by (rule matvec_eye) simp
  then show "norm_tr (x # replicate m 0) (eye (Suc m)) = \<bar>x\<bar>"
    by (simp add: norm_tr_def dot_zeros_right flip: power2_eq_square)
qed

lemma first_step_decrease_nonneg:
  fixes q c0 gam x a0 :: real
  assumes c0: "c0 \<le> 0" and g: "0 \<le> gam"
    and a0: "a0 = (if q > 0 then - c0 / q / (1 + gam) else 1 / 10000)"
    and x: "0 \<le> x" "x \<le> a0"
  shows "0 \<le> - 1 / 2 * q * x * x - c0 * x"
proof (cases "q > 0")
  case False
  then have "0 \<le> - 1 / 2 * q * (x * x)" by (simp add: mult_nonneg_nonpos2)
  moreover have "0 \<le> - c0 * x" using c0 x by (simp add: mult_nonpos_nonneg)
  ultimately show ?thesis by (simp add: algebra_simps)
next
  case True
  then have a0': "a0 = - c0 / q / (1 + gam)" using a0 by simp
  have "q * a0 = - c0 / (1 + gam)" using True by (simp add: a0')
  also have "\<dots> \<le> - c0" using c0 g by (simp add: field_simps mult_nonpos_nonneg)
  finally have "q * a0 \<le> - c0" .
  moreover have "q * x \<le> q * a0" using True x by simp
  ultimately have "q * x \<le> - c0" by simp
  then have "0 \<le> - 1 / 2 * (q * x) - c0" using c0 by simp
  then have "0 \<le> x * (- 1 / 2 * (q * x) - c0)" using x by (intro mult_nonneg_nonneg)
  then show ?thesis by (simp add: algebra_simps)
qed


lemma DRSOMF_first_step_trs_nonneg:
  assumes wf: "wf_mat (length cv) Qm" and ne: "cv \<noteq> []"
    and c0: "cv ! 0 \<le> 0" and g: "0 \<le> gamma self" and d: "0 \<le> delta_max self"
    and br: "iter self = 0 \<or> Q self ! (length cv - 1) ! (length cv - 1) < 1 / 10000"
    and res: "DRSOMF_solve_alpha eigh lsolve self Qm cv (eye (length cv)) = Inr (a, nrm)"
  shows "0 \<le> trs_est_of Qm cv a"
proof -
  from ne obtain m where m: "length cv = Suc m" by (cases cv) auto
  define a0 where "a0 = (if Qm ! 0 ! 0 > 0 then - (cv ! 0) / (Qm ! 0 ! 0) / (1 + gamma self)
                         else 1 / 10000)"
  have a0_nonneg: "0 \<le> a0"
  proof (cases "Qm ! 0 ! 0 > 0")
    case True
    then have "0 < Qm ! 0 ! 0 * (1 + gamma self)" using g by (intro mult_pos_pos) simp_all
    then have "cv ! 0 / (Qm ! 0 ! 0 * (1 + gamma self)) \<le> 0"
      using c0 by (simp add: divide_nonpos_pos)
    then show ?thesis using True by (simp add: a0_def)
  next
    case False
    then show ?thesis by (simp add: a0_def)
  qed
  have upd: "(replicate (Suc m) (0::real))[0 := a0] = a0 # replicate m 0" by simp
  define x where "x = (if \<bar>a0\<bar> > delta_max self then a0 / \<bar>a0\<bar> * delta_max self else a0)"
  have a: "a = x # replicate m 0"
    using res br
    by (auto simp: DRSOMF_solve_alpha_def Let_def m a0_def [symmetric] first_coordinate_norms
             x_def simp del: replicate.simps list_update.simps simp add: upd)
  have x0: "0 \<le> x" "x \<le> a0"
    using a0_nonneg d by (auto simp: x_def)
  have "0 \<le> - 1 / 2 * (Qm ! 0 ! 0) * x * x - cv ! 0 * x"
    using c0 g a0_def x0 by (rule first_step_decrease_nonneg)
  then show ?thesis
    using first_coordinate_forms [OF wf [unfolded m] m, of x] by (simp add: a)
qed

text \<open>Two runs of the solver with the identity metric, used as concrete instances below.\<close>

lemma eigh2_2112: "eigh2 [[2, 1], [1, 2]] = [1, 3]"
  using eigh2_equal_diagonal [of 2 1] by simp

lemma run_identity_half: "compute_root eigh2 lsolve2 [[2, 1], [1, 2]] [-1, 0] (1 / 2) (eye 2)
         = Inr (0, 3 / 2, [14 / 45, - 4 / 45], sqrt (212 / 2025), True)"
  by (simp add: eval_defs eigh2_2112 eye_2)

lemma run_identity_one: "compute_root eigh2 lsolve2 [[2, 1], [1, 2]] [-1, 0] 1 (eye 2)
         = Inr (0, 3, [5 / 24, - 1 / 24], sqrt (13 / 288), True)"
  by (simp add: eval_defs eigh2_2112 eye_2)

lemma eigh2_25_26: "eigh2 [[25, 26], [26, 25]] = [- 1, 51]"
  using eigh2_equal_diagonal [of 25 26] by simp

section \<open>Unfolding the constructed optimizer\<close>

lemmas init_defs = scalar_optimizer_def DRSOMB_init_def adjrules0_def decayrules0_def

section \<open>Facts about the step routine\<close>

lemma length_build_direction [simp]: "length (build_direction ps dirs a) = length ps"
  by (simp add: build_direction_def)

lemma map_snd_zip_same_length:
  "length xs = length ys \<Longrightarrow> map (\<lambda>(p, pdata). pdata) (zip xs ys) = ys"
  by (induction xs ys rule: list_induct2) simp_all

lemma params_set_param:
  "length (params self) = length params_data \<Longrightarrow> params (set_param self params_data) = params_data"
  by (simp add: set_param_def map_snd_zip_same_length)

lemma length_params_use_new_d:
  "length d_new = length (params self) \<Longrightarrow> length (params (use_new_d self d_new)) = length (params self)"
  by (simp add: use_new_d_def)

lemma compute_step_frame:
  assumes "DRSOMB_compute_step u self = Inr (s1, t)"
  shows "params s1 = params self" and "state s1 = state self"
    and "directions s1 = directions self" and "gamma s1 = gamma self"
    and "gammalb s1 = gammalb self" and "radius s1 = radius self"
    and "adjrule s1 = adjrule self" and "decayrule s1 = decayrule self"
    and "max_iter_adj s1 = max_iter_adj self"
    and "Q s1 = Q self" and "c s1 = c self" and "G s1 = G self" and "iter s1 = iter self"
    and "t = trs_est_of (Q self) (c self) (alpha s1)"
  using assms by (auto simp: DRSOMB_compute_step_def split: sum.splits)

lemma adjust_by_rho_frame:
  assumes "adjust_by_rho rho self = Inr s"
  shows "params s = params self" and "state s = state self"
    and "directions s = directions self" and "gammalb s = gammalb self"
    and "adjrule s = adjrule self" and "decayrule s = decayrule self"
    and "max_iter_adj s = max_iter_adj self"
    and "Q s = Q self" and "c s = c self" and "G s = G self" and "iter s = iter self"
  using assms by (auto simp: adjust_by_rho_def split: if_splits)

lemma inner_pass_Reject:
  assumes "inner_pass u f p_copy dirs loss self = Inr (Reject, s')"
  obtains s1 t s3 where "DRSOMB_compute_step u self = Inr (s1, t)" and "\<not> t < 0"
    and "adjust_by_rho (tensor_div (loss - loss_at f (params (use_new_d s1 (build_direction (params s1) dirs (alpha s1))))) t)
           (use_new_d s1 (build_direction (params s1) dirs (alpha s1))) = Inr s3"
    and "\<not> ratio_gt (tensor_div (loss - loss_at f (params (use_new_d s1 (build_direction (params s1) dirs (alpha s1))))) t)
              (eta (adjrule s3))"
    and "s' = set_param s3 p_copy"
  using assms
  by (auto simp: inner_pass_def Let_def split: sum.splits if_splits prod.splits)

text \<open>The snapshot and its restoration are an exact round trip.\<close>

lemma snapshot_round_trip:
  "params (set_param (use_new_d self (build_direction (params self) dirs a)) (clone_param self))
     = params self"
  by (simp add: params_set_param length_params_use_new_d clone_param_def)

section \<open>A run that ends without an accepted step\<close>

lemmas model_defs = step_setup_def gather_normalized_grad_def gather_momenta.simps gather_normalize_def
  update_trust_region_def build_G_def build_c_def compute_Q_via_hvp_def mat_zeros_def mat_set_def
  mirror_lower_def accumulate_upper_def inner_sum_def clone_param_def example_utils_def wall_objective_def
  zeros_like_def

lemma small_lists: "[0..<2] = [0, Suc 0]" "[Suc 0..<2] = [Suc 0]" "[0..<Suc 0] = [0]" "[2..<2] = []"
  "[0..<0] = []" "replicate 2 x = [x, x]"
  by (simp_all add: upt_rec numeral_2_eq_2)

lemma setup_rejecting:
  "step_setup example_utils wall_objective rejecting_optimizer
     = Inr (1, [[1]], [[[- 2]], [[3]]], rejecting_model)"
  by (simp add: rejecting_model_def rejecting_optimizer_def init_defs model_defs Let_def small_lists)

lemmas pass_defs = inner_pass_def DRSOMB_compute_step_def TRS_like_def DRSOMF_solve_alpha_def
  trs_est_of_def norm_tr_def matvec_def linalg_norm_def build_direction_def use_new_d_def
  set_param_def tensor_div_def adjust_by_rho_def example_utils_def wall_objective_def zeros_like_def

lemma pass_rejecting:
  "inner_pass example_utils wall_objective [[1]] [[[- 2]], [[3]]] 1 rejecting_model
     = Inr (Reject, rejecting_model\<lparr>alpha := [1 / 4, 0], alpha_norm := 1 / 4, gamma := 50, radius := 2\<rparr>)"
proof -
  have "sqrt (1 / 16) = 1 / 4"
    by (rule real_sqrt_unique) (simp_all add: power2_eq_square)
  then show ?thesis
    by (simp add: rejecting_model_def rejecting_optimizer_def init_defs pass_defs Let_def small_lists
        power2_eq_square)
qed


lemma loop_rejecting:
  "inner_loop 1 example_utils wall_objective [[1]] [[[- 2]], [[3]]] 1 rejecting_model 1 False
     = Some (Inr (rejecting_model\<lparr>alpha := [1 / 4, 0], alpha_norm := 1 / 4, gamma := 50, radius := 2\<rparr>,
                  False))"
proof -
  have "max_iter_adj rejecting_model = 2"
    by (simp add: rejecting_model_def rejecting_optimizer_def init_defs)
  then show ?thesis
    unfolding One_nat_def using pass_rejecting by simp
qed

lemma zero_fold_keeps:
  assumes "\<forall>t. st k = Some t \<longrightarrow> (\<forall>x \<in> set t. x = 0)"
  shows "\<forall>t. fold (\<lambda>k st. case st k of None \<Rightarrow> st | Some t \<Rightarrow> st(k \<mapsto> zeros_like t)) ks st k = Some t
             \<longrightarrow> (\<forall>x \<in> set t. x = 0)"
  using assms
proof (induction ks arbitrary: st)
  case Nil then show ?case by simp
next
  case (Cons a ks)
  show ?case
    unfolding fold_simps
  proof (rule Cons.IH)
    show "\<forall>t. (case st a of None \<Rightarrow> st | Some t \<Rightarrow> st(a \<mapsto> zeros_like t)) k = Some t
              \<longrightarrow> (\<forall>x \<in> set t. x = 0)"
      using Cons.prems by (auto simp: zeros_like_def split: option.splits)
  qed
qed

lemma zero_fold_clears:
  assumes "k \<in> set ks"
  shows "\<forall>t. fold (\<lambda>k st. case st k of None \<Rightarrow> st | Some t \<Rightarrow> st(k \<mapsto> zeros_like t)) ks st k = Some t
             \<longrightarrow> (\<forall>x \<in> set t. x = 0)"
  using assms
proof (induction ks arbitrary: st)
  case Nil then show ?case by simp
next
  case (Cons a ks)
  show ?case
  proof (cases "k = a")
    case True
    have "\<forall>t. (case st a of None \<Rightarrow> st | Some t \<Rightarrow> st(a \<mapsto> zeros_like t)) k = Some t
              \<longrightarrow> (\<forall>x \<in> set t. x = 0)"
      using True by (auto simp: zeros_like_def split: option.splits)
    then show ?thesis
      unfolding fold_simps by (rule zero_fold_keeps)
  next
    case False
    with Cons.prems have "k \<in> set ks" by simp
    then show ?thesis
      unfolding fold_simps by (rule Cons.IH)
  qed
qed

lemma clear_momentum_zero: "buffers_zero (clear_momentum self)"
  by (auto simp: buffers_zero_def clear_momentum_def dest: zero_fold_clears [rule_format])

lemma step_finish_rejected:
  "gamma (step_finish self False) = gammalb self"
  "gammalb (step_finish self False) = gammalb self"
  "buffers_zero (step_finish self False)"
  "iter (step_finish self False) = iter self + 1"
  "params (step_finish self False) = params self"
proof -
  have "buffers_zero (clear_momentum (self\<lparr>iter := iter self + 1\<rparr>))"
    by (rule clear_momentum_zero)
  then show "buffers_zero (step_finish self False)"
    by (simp add: step_finish_def buffers_zero_def clear_momentum_def)
qed (simp_all add: step_finish_def clear_momentum_def)

lemma step_final_rejection:
  assumes "step_setup u f self = Inr (loss, p_copy, dirs, s3)"
    and "inner_loop fuel u f p_copy dirs loss s3 1 False = Some (Inr (s4, False))"
  shows "step fuel u (Some f) self = Some (Inr (loss, step_finish s4 False))"
    and "loss = loss_at f (params (adjust_gamma_and_radius u self))"
proof -
  show "step fuel u (Some f) self = Some (Inr (loss, step_finish s4 False))"
    using assms by (simp add: step_def)
  show "loss = loss_at f (params (adjust_gamma_and_radius u self))"
    using assms(1)
    by (auto simp: step_setup_def Let_def split: sum.splits if_splits prod.splits)
qed

lemma finish_rejecting:
  "step_finish (rejecting_model\<lparr>alpha := [1 / 4, 0], alpha_norm := 1 / 4, gamma := 50, radius := 2\<rparr>) False
     = rejecting_model\<lparr>alpha := [1 / 4, 0], alpha_norm := 1 / 4, gamma := 1 / 10000000000, radius := 2,
                        iter := 1, state := [[''momentum'' \<mapsto> [0]]]\<rparr>"
  by (simp add: step_finish_def clear_momentum_def zeros_like_def rejecting_model_def
      rejecting_optimizer_def init_defs)

section \<open>Facts about the construction of the reduced model\<close>

lemma wf_mat_set: "wf_mat n M \<Longrightarrow> wf_mat n (mat_set M i j v)"
proof (cases "i < length M")
  case True
  assume wf: "wf_mat n M"
  have "set (M[i := (M ! i)[j := v]]) \<subseteq> insert ((M ! i)[j := v]) (set M)"
    by (rule set_update_subset_insert)
  moreover have "length ((M ! i)[j := v]) = n" using wf True by (simp add: wf_mat_def)
  ultimately show ?thesis using wf by (auto simp: wf_mat_def mat_set_def)
next
  case False
  assume "wf_mat n M"
  with False show ?thesis by (simp add: mat_set_def list_update_beyond)
qed

lemma mat_zeros_nth: "i < n \<Longrightarrow> j < n \<Longrightarrow> mat_zeros n ! i ! j = 0"
  by (simp add: mat_zeros_def)

lemma fold_preserves:
  assumes "\<And>x M. P M \<Longrightarrow> P (g x M)" and "P M"
  shows "P (fold g xs M)"
  using assms(2) by (induction xs arbitrary: M) (simp_all add: assms(1))

lemma wf_mat_zeros: "wf_mat n (mat_zeros n)"
  by (simp add: wf_mat_def mat_zeros_def)

lemma mat_set_nth:
  assumes "wf_mat n M" and "i < n" and "j < n" and "r < n" and "s < n"
  shows "mat_set M i j v ! r ! s = (if r = i \<and> s = j then v else M ! r ! s)"
  using assms by (auto simp: wf_mat_def mat_set_def nth_list_update)

text \<open>The mirror loop of one row: \<^verbatim>\<open>for j in range(m): M[i, j] = M[j, i]\<close> with \<open>m \<le> i\<close>.\<close>

lemma mirror_row:
  assumes wf: "wf_mat n M" and i: "i < n" and m: "m \<le> i"
  shows "wf_mat n (fold (\<lambda>j M. mat_set M i j (M ! j ! i)) [0..<m] M)
         \<and> (\<forall>r < n. \<forall>s < n.
               fold (\<lambda>j M. mat_set M i j (M ! j ! i)) [0..<m] M ! r ! s
                 = (if r = i \<and> s < m then M ! s ! i else M ! r ! s))"
  using m
proof (induction m)
  case 0
  show ?case using wf by simp
next
  case (Suc m)
  define M' where "M' = fold (\<lambda>j M. mat_set M i j (M ! j ! i)) [0..<m] M"
  from Suc have wf': "wf_mat n M'"
    and ent: "\<forall>r < n. \<forall>s < n. M' ! r ! s = (if r = i \<and> s < m then M ! s ! i else M ! r ! s)"
    by (simp_all add: M'_def)
  have mi: "m < i" and mn: "m < n" using Suc.prems i by simp_all
  have step: "fold (\<lambda>j M. mat_set M i j (M ! j ! i)) [0..<Suc m] M = mat_set M' i m (M' ! m ! i)"
    by (simp add: M'_def)
  have "M' ! m ! i = M ! m ! i" using ent mn i mi by simp
  then have "\<forall>r < n. \<forall>s < n. mat_set M' i m (M' ! m ! i) ! r ! s
               = (if r = i \<and> s < Suc m then M ! s ! i else M ! r ! s)"
    using ent mat_set_nth [OF wf' i mn] by (auto simp: less_Suc_eq)
  then show ?case
    unfolding step using wf' by (simp add: wf_mat_set)
qed

lemma mirror_rows:
  assumes wf: "wf_mat n M" and k: "k \<le> n"
  shows "wf_mat n (mirror_lower k M)
         \<and> (\<forall>r < n. \<forall>s < n.
               mirror_lower k M ! r ! s = (if r < k \<and> s < r then M ! s ! r else M ! r ! s))"
  using k
proof (induction k)
  case 0
  show ?case using wf by (simp add: mirror_lower_def)
next
  case (Suc k)
  define M' where "M' = mirror_lower k M"
  from Suc have wf': "wf_mat n M'"
    and ent: "\<forall>r < n. \<forall>s < n. M' ! r ! s = (if r < k \<and> s < r then M ! s ! r else M ! r ! s)"
    by (simp_all add: M'_def)
  have kn: "k < n" using Suc.prems by simp
  have step: "mirror_lower (Suc k) M = fold (\<lambda>j M. mat_set M k j (M ! j ! k)) [0..<k] M'"
    by (simp add: mirror_lower_def M'_def)
  from mirror_row [OF wf' kn order_refl]
  have wf'': "wf_mat n (fold (\<lambda>j M. mat_set M k j (M ! j ! k)) [0..<k] M')"
    and ent': "\<forall>r < n. \<forall>s < n. fold (\<lambda>j M. mat_set M k j (M ! j ! k)) [0..<k] M' ! r ! s
                 = (if r = k \<and> s < k then M' ! s ! k else M' ! r ! s)"
    by simp_all
  have "\<forall>r < n. \<forall>s < n. fold (\<lambda>j M. mat_set M k j (M ! j ! k)) [0..<k] M' ! r ! s
                 = (if r < Suc k \<and> s < r then M ! s ! r else M ! r ! s)"
    using ent ent' kn by (auto simp: less_Suc_eq)
  then show ?case
    unfolding step using wf'' by simp
qed

lemma mirror_lower_symmetric:
  assumes "wf_mat n M" and "i < n" and "j < n"
  shows "mirror_lower n M ! i ! j = mirror_lower n M ! j ! i"
  using mirror_rows [OF assms(1) order_refl] assms(2,3)
  by (cases i j rule: linorder_cases) auto

lemma wf_accumulate_upper: "wf_mat n M \<Longrightarrow> wf_mat n (accumulate_upper k g M)"
  unfolding accumulate_upper_def
  by (intro fold_preserves [where P = "wf_mat n"] wf_mat_set)

lemma wf_assign_upper: "wf_mat n M \<Longrightarrow> wf_mat n (assign_upper k g M)"
  unfolding assign_upper_def
  by (intro fold_preserves [where P = "wf_mat n"] wf_mat_set)

lemma identity_fill:
  assumes wf: "wf_mat n M" and k: "k \<le> n"
  shows "wf_mat n (fold (\<lambda>i M. mat_set M i i 1) [0..<k] M)
         \<and> (\<forall>r < n. \<forall>s < n.
               fold (\<lambda>i M. mat_set M i i 1) [0..<k] M ! r ! s
                 = (if r = s \<and> r < k then 1 else M ! r ! s))"
  using k
proof (induction k)
  case 0
  show ?case using wf by simp
next
  case (Suc k)
  define M' where "M' = fold (\<lambda>i M. mat_set M i i 1) [0..<k] M"
  from Suc have wf': "wf_mat n M'"
    and ent: "\<forall>r < n. \<forall>s < n. M' ! r ! s = (if r = s \<and> r < k then 1 else M ! r ! s)"
    by (simp_all add: M'_def)
  have kn: "k < n" using Suc.prems by simp
  have step: "fold (\<lambda>i M. mat_set M i i 1) [0..<Suc k] M = mat_set M' k k 1"
    by (simp add: M'_def)
  have "\<forall>r < n. \<forall>s < n. mat_set M' k k 1 ! r ! s = (if r = s \<and> r < Suc k then 1 else M ! r ! s)"
    using ent mat_set_nth [OF wf' kn kn] by (auto simp: less_Suc_eq)
  then show ?case
    unfolding step using wf' by (simp add: wf_mat_set)
qed

lemma build_G_symmetric:
  assumes "i < length dirs" and "j < length dirs"
  shows "build_G self dirs ! i ! j = build_G self dirs ! j ! i"
proof (cases "qpsolver self \<in> {QRegP, TRSP}")
  case True
  have "wf_mat (length dirs)
          (accumulate_upper (length dirs) (\<lambda>i j. inner_sum (dirs ! j) (dirs ! i)) (mat_zeros (length dirs)))"
    by (intro wf_accumulate_upper wf_mat_zeros)
  from mirror_lower_symmetric [OF this assms] True show ?thesis
    by (simp add: build_G_def Let_def)
next
  case False
  from identity_fill [OF wf_mat_zeros order_refl, of "length dirs"] assms False
  show ?thesis
    by (auto simp: build_G_def Let_def mat_zeros_nth)
qed

lemma compute_Q_via_hvp_symmetric:
  assumes "compute_Q_via_hvp f self dirs style = Inr Qm" and "i < length dirs" and "j < length dirs"
  shows "Qm ! i ! j = Qm ! j ! i"
proof -
  define Q1 where "Q1 = accumulate_upper (length dirs)
      (\<lambda>i j. inner_sum (dirs ! i) (map (hvp_at f (params self)) dirs ! j)) (mat_zeros (length dirs))"
  have wf: "wf_mat (length dirs) Q1"
    unfolding Q1_def by (intro wf_accumulate_upper wf_mat_zeros)
  have "Qm = mirror_lower (length dirs) Q1"
    using assms(1) by (auto simp: compute_Q_via_hvp_def Let_def Q1_def split: if_splits)
  then show ?thesis
    using mirror_lower_symmetric [OF wf assms(2,3)] by simp
qed

lemma compute_Q_via_interpolation_symmetric:
  assumes "compute_Q_via_interpolation u f self dirs fx cv p_copy dlt = Inr (Qm, self')"
    and "i < length dirs" and "j < length dirs"
  shows "Qm ! i ! j = Qm ! j ! i"
proof -
  from assms(1) obtain q where
    "Qm = mirror_lower (length dirs)
            (assign_upper (length dirs) (\<lambda>i j. q ! (j * (j + 1) div 2 + i)) (mat_zeros (length dirs)))"
    by (auto simp: compute_Q_via_interpolation_def Let_def split: if_splits sum.splits prod.splits)
  moreover have "wf_mat (length dirs)
      (assign_upper (length dirs) (\<lambda>i j. q ! (j * (j + 1) div 2 + i)) (mat_zeros (length dirs)))"
    by (intro wf_assign_upper wf_mat_zeros)
  ultimately show ?thesis
    using mirror_lower_symmetric [OF _ assms(2,3)] by simp
qed


lemma update_trust_region_symmetric:
  assumes res: "update_trust_region u f self p_copy dirs fx = Inr s"
    and due: "int (iter self) mod qp_freq (decayrule self) = 0"
    and ij: "i < length dirs" "j < length dirs"
  shows "Q s ! i ! j = Q s ! j ! i" and "G s ! i ! j = G s ! j ! i"
proof -
  from res due obtain Qm self1 where
    strategy: "(qpmode self = FiniteDiff \<and> compute_Q_via_hvp f self dirs 1 = Inr Qm)
       \<or> (qpmode self = AutomaticDiff \<and> compute_Q_via_hvp f self dirs 0 = Inr Qm)
       \<or> (qpmode self = Interpolation
            \<and> compute_Q_via_interpolation u f self dirs fx (build_c self dirs) p_copy (delta self)
                = Inr (Qm, self1))"
    and Qs: "Q s = Qm" and Gs: "G s = build_G self dirs"
    by (auto simp: update_trust_region_def Let_def
        split: if_splits sum.splits prod.splits DRSOMModeQP.splits)
  from strategy have "Qm ! i ! j = Qm ! j ! i"
    using ij compute_Q_via_hvp_symmetric compute_Q_via_interpolation_symmetric by blast
  then show "Q s ! i ! j = Q s ! j ! i" by (simp add: Qs)
  show "G s ! i ! j = G s ! j ! i" unfolding Gs using ij by (rule build_G_symmetric)
qed

text \<open>Two runs of \<^verbatim>\<open>update_trust_region\<close>, one per strategy, on the quadratic objective.\<close>

lemmas model_defs2 = update_trust_region_def build_G_def build_c_def compute_Q_via_hvp_def
  sampling_def coordinates_def build_natural_basis_def
  build_direction_def use_new_d_def set_param_def assign_upper_def
  mat_zeros_def mat_set_def mirror_lower_def accumulate_upper_def inner_sum_def
  fitted_utils_def example_utils_def quadratic_objective_def zeros_like_def plane_optimizer_def

lemma run_hvp:
  "update_trust_region fitted_utils quadratic_objective (plane_optimizer AutomaticDiff) [[1, 0]]
      [[[- 2, - 1]], [[0, 1]]] 1
   = Inr ((plane_optimizer AutomaticDiff)\<lparr>Q := [[16, - 6], [- 6, 4]], c := [- 5, 1],
            G := [[1, 0], [0, 1]], grad := [[0, 0]], ghg := 16\<rparr>)"
  by (simp add: init_defs model_defs2 Let_def small_lists)



lemma set_param_use_new_d:
  assumes "length (params s) = length p_copy"
  shows "set_param (use_new_d s (build_direction (params s) dirs a)) p_copy = s\<lparr>params := p_copy\<rparr>"
  using assms by (simp add: set_param_def use_new_d_def map_snd_zip_same_length)

lemma sampling_loop_state:
  assumes "length (params s) = length p_copy"
  shows "snd (fold (\<lambda>j. sample_at f dirs fx p_copy (a j) (ff j)) js (df0, s))
         = (if js = [] then s else s\<lparr>params := p_copy\<rparr>)"
  using assms
proof (induction js arbitrary: df0 s)
  case Nil
  then show ?case by simp
next
  case (Cons j js)
  have "length (params (s\<lparr>params := p_copy\<rparr>)) = length p_copy" by simp
  from Cons.IH [OF this] show ?case
    using Cons.prems by (simp add: sample_at_def Let_def set_param_use_new_d)
qed

lemma length_sampling:
  "length (sampling n k_diag dlt) = n * k_diag + (if n > 1 then k_diag else 0)"
proof -
  have "length (concat (map (\<lambda>j. map (\<lambda>s. coordinates n j (exp (- real s) * dlt)) [0..<k_diag]) [0..<n]))
        = n * k_diag"
    by (simp add: length_concat comp_def sum_list_triv)
  then show ?thesis
    by (simp add: sampling_def Let_def)
qed

lemma interpolation_by_lstsq:
  assumes len: "length dirs = 2" and ps: "length (params self) = length p_copy"
    and fit: "\<And>K d. np_lstsq u K d = q"
    and q: "3 \<le> length q"
  shows "compute_Q_via_interpolation u f self dirs fx cv p_copy dlt
         = Inr (mirror_lower 2 (assign_upper 2 (\<lambda>i j. q ! (j * (j + 1) div 2 + i)) (mat_zeros 2)),
                self\<lparr>params := p_copy\<rparr>)"
proof -
  have k: "length (sampling 2 2 dlt) = 6"
    by (simp add: length_sampling)
  obtain df s1 where fr:
    "fold (\<lambda>j. sample_at f dirs fx p_copy (sampling 2 2 dlt ! j)
                 (map (\<lambda>v. dot v cv) (sampling 2 2 dlt) ! j)) [0..<6] ([], self) = (df, s1)"
    by (cases "fold (\<lambda>j. sample_at f dirs fx p_copy (sampling 2 2 dlt ! j)
                 (map (\<lambda>v. dot v cv) (sampling 2 2 dlt) ! j)) [0..<6] ([], self)") auto
  have "[0..<6] \<noteq> []" by simp
  with sampling_loop_state [OF ps, of f dirs fx "\<lambda>j. sampling 2 2 dlt ! j"
            "\<lambda>j. map (\<lambda>v. dot v cv) (sampling 2 2 dlt) ! j" "[0..<6]" "[]"] fr
  have s1: "s1 = self\<lparr>params := p_copy\<rparr>" by simp
  show ?thesis
    unfolding compute_Q_via_interpolation_def Let_def len k fr
    using q by (simp add: fit s1)
qed


lemma run_interpolation:
  "update_trust_region fitted_utils quadratic_objective (plane_optimizer Interpolation) [[1, 0]]
      [[[- 2, - 1]], [[0, 1]]] 1
   = Inr ((plane_optimizer Interpolation)\<lparr>Q := [[16, - 6], [- 6, 4]], c := [- 5, 1],
            G := [[1, 0], [0, 1]], ghg := 16\<rparr>)"
proof -
  have "compute_Q_via_interpolation fitted_utils quadratic_objective (plane_optimizer Interpolation)
          [[[- 2, - 1]], [[0, 1]]] 1 [- 5, 1] [[1, 0]] (1 / 1000)
        = Inr (mirror_lower 2 (assign_upper 2 (\<lambda>i j. [16, - 6, 4] ! (j * (j + 1) div 2 + i)) (mat_zeros 2)),
               (plane_optimizer Interpolation)\<lparr>params := [[1, 0]]\<rparr>)"
    by (rule interpolation_by_lstsq) (simp_all add: fitted_utils_def plane_optimizer_def init_defs)
  also have "mirror_lower 2 (assign_upper 2 (\<lambda>i j. [16, - 6, 4] ! (j * (j + 1) div 2 + i)) (mat_zeros 2))
        = [[16, - 6], [- 6, 4 :: real]]"
    by (simp add: mirror_lower_def assign_upper_def mat_zeros_def mat_set_def small_lists)
  finally show ?thesis
    by (simp add: update_trust_region_def build_G_def build_c_def inner_sum_def mat_zeros_def
        mat_set_def Let_def small_lists plane_optimizer_def init_defs)
qed

lemma fitted_triangle_is_exact:
  "matvec (map build_natural_basis (sampling 2 2 dlt)) [16, - 6, 4]
     = map (\<lambda>v. loss_at quadratic_objective
                    (params (use_new_d (plane_optimizer Interpolation)
                       (build_direction [[1, 0]] [[[- 2, - 1]], [[0, 1]]] v)))
                  - 1 - dot v [- 5, 1])
           (sampling 2 2 dlt)"
  by (simp add: sampling_def coordinates_def build_natural_basis_def build_direction_def
      use_new_d_def matvec_def quadratic_objective_def zeros_like_def plane_optimizer_def
      init_defs Let_def small_lists power2_eq_square algebra_simps)

section \<open>The inner loop\<close>

text \<open>
  A pass of the inner loop leaves the reduced model, the budget and the rules alone, and
  only an accepted step touches the state dictionaries.
\<close>

lemma save_momentum_frame:
  assumes "save_momentum u s vlist key = Inr s'"
  shows "loop_frame s0 s' = loop_frame s0 s" and "params s' = params s" and "gamma s' = gamma s"
  using assms by (auto simp: save_momentum_def loop_frame_def split: if_splits)

lemma inner_pass_cases:
  assumes "inner_pass u f p_copy dirs loss s = Inr (out, s')"
  obtains (neg) s1 t where "DRSOMB_compute_step u s = Inr (s1, t)" "t < 0" "out = Negative"
      "s' = s1\<lparr>gamma := max (gamma s1 * beta1 (adjrule s1)) (1 / 10000),
                radius := max (radius s1 / sqrt (beta1 (adjrule s1))) (1 / 1000000000000)\<rparr>"
    | (rej) s1 t s3 where "DRSOMB_compute_step u s = Inr (s1, t)" "\<not> t < 0" "out = Reject"
      "adjust_by_rho (tensor_div (loss - loss_at f (params (use_new_d s1 (build_direction (params s1) dirs (alpha s1))))) t)
           (use_new_d s1 (build_direction (params s1) dirs (alpha s1))) = Inr s3"
      "s' = set_param s3 p_copy"
    | (acc) s1 t s3 where "DRSOMB_compute_step u s = Inr (s1, t)" "\<not> t < 0" "out = Accept"
      "adjust_by_rho (tensor_div (loss - loss_at f (params (use_new_d s1 (build_direction (params s1) dirs (alpha s1))))) t)
           (use_new_d s1 (build_direction (params s1) dirs (alpha s1))) = Inr s3"
      "s' = s3 \<or> save_momentum u s3 (build_direction (params s1) dirs (alpha s1)) ''momentum'' = Inr s'"
  using assms
  by (auto simp: inner_pass_def Let_def split: sum.splits if_splits prod.splits)

lemma inner_pass_frame:
  assumes "inner_pass u f p_copy dirs loss s = Inr (out, s')" and "loop_frame s0 s"
  shows "loop_frame s0 s'"
  using assms(1)
proof (cases rule: inner_pass_cases)
  case (neg s1 t)
  then show ?thesis using assms(2) compute_step_frame [OF neg(1)]
    by (simp add: loop_frame_def)
next
  case (rej s1 t s3)
  then show ?thesis using assms(2) compute_step_frame [OF rej(1)] adjust_by_rho_frame [OF rej(4)]
    by (simp add: loop_frame_def set_param_def use_new_d_def)
next
  case (acc s1 t s3)
  have "loop_frame s0 s3"
    using assms(2) compute_step_frame [OF acc(1)] adjust_by_rho_frame [OF acc(4)]
    by (simp add: loop_frame_def use_new_d_def)
  then show ?thesis using acc(5) save_momentum_frame(1) by blast
qed

lemma inner_loop_Suc:
  assumes "ia < max_iter_adj s"
  shows "inner_pass u f p_copy dirs loss s = Inl e \<Longrightarrow>
           inner_loop (Suc n) u f p_copy dirs loss s ia acc = Some (Inl e)"
    and "inner_pass u f p_copy dirs loss s = Inr (Negative, s') \<Longrightarrow>
           inner_loop (Suc n) u f p_copy dirs loss s ia acc
           = inner_loop n u f p_copy dirs loss s' ia acc"
    and "inner_pass u f p_copy dirs loss s = Inr (Reject, s') \<Longrightarrow>
           inner_loop (Suc n) u f p_copy dirs loss s ia acc
           = inner_loop n u f p_copy dirs loss s' (ia + 1) False"
    and "inner_pass u f p_copy dirs loss s = Inr (Accept, s') \<Longrightarrow>
           inner_loop (Suc n) u f p_copy dirs loss s ia acc = Some (Inr (s', True))"
  using assms by simp_all

lemma inner_loop_always_negative:
  assumes neg: "\<And>s. loop_frame s0 s \<Longrightarrow> \<exists>s1 t. DRSOMB_compute_step u s = Inr (s1, t) \<and> t < 0"
    and fr: "loop_frame s0 s" and ia: "ia < max_iter_adj s0"
  shows "inner_loop n u f p_copy dirs loss s ia acc = None"
  using fr
proof (induction n arbitrary: s)
  case 0
  with ia show ?case by (simp add: loop_frame_def)
next
  case (Suc n)
  from neg [OF Suc.prems] obtain s1 t where st: "DRSOMB_compute_step u s = Inr (s1, t)" "t < 0"
    by blast
  then obtain s' where pass: "inner_pass u f p_copy dirs loss s = Inr (Negative, s')"
    by (simp add: inner_pass_def)
  have True: "ia < max_iter_adj s" using ia Suc.prems by (simp add: loop_frame_def)
  have "loop_frame s0 s'" using inner_pass_frame [OF pass Suc.prems] .
  from Suc.IH [OF this] show ?case
    unfolding inner_loop_Suc(2) [OF True pass] .
qed

subsection \<open>A model whose predicted decrease stays negative\<close>

lemma setup_stuck:
  "step_setup example_utils abs_objective stuck_optimizer
     = Inr (1 / 10, [[- 1 / 10]], [[[- 1]]], stuck_model)"
  by (simp add: stuck_model_def stuck_optimizer_def init_defs model_defs abs_objective_def
      use_fixed_momentum_def update_fixed_momentum_def Let_def small_lists)

lemma stuck_negative:
  assumes "loop_frame stuck_model s"
  shows "\<exists>s1 t. DRSOMB_compute_step example_utils s = Inr (s1, t) \<and> t < 0"
proof -
  from assms have "Q s = [[0]]" "c s = [1]" "G s = [[1]]" "iter s = 3"
    by (simp_all add: loop_frame_def stuck_model_def stuck_optimizer_def init_defs)
  then show ?thesis
    by (simp add: DRSOMB_compute_step_def example_utils_def TRS_like_def DRSOMF_solve_alpha_def
        trs_est_of_def norm_tr_def matvec_def linalg_norm_def Let_def)
qed

subsection \<open>The state dictionaries\<close>

lemma zeros_like_idem: "zeros_like (zeros_like t) = zeros_like t"
  by (simp add: zeros_like_def)

lemma clear_fold:
  "fold (\<lambda>k st. case st k of None \<Rightarrow> st | Some t \<Rightarrow> st(k \<mapsto> zeros_like t)) ks st
     = (\<lambda>k. if k \<in> set ks then map_option zeros_like (st k) else st k)"
proof (induction ks arbitrary: st)
  case Nil then show ?case by simp
next
  case (Cons a ks)
  have "(case st a of None \<Rightarrow> st | Some t \<Rightarrow> st(a \<mapsto> zeros_like t))
          = (\<lambda>k. if k = a then map_option zeros_like (st a) else st k)"
    by (auto split: option.splits)
  then show ?case
    by (auto simp: Cons.IH zeros_like_idem option.map_comp comp_def split: option.splits)
qed

lemma state_clear_momentum:
  "state (clear_momentum self)
     = map (\<lambda>st k. if k \<in> set (directions self) then map_option zeros_like (st k) else st k)
           (state self)"
  by (simp add: clear_momentum_def clear_fold)

lemma inner_pass_state:
  assumes "inner_pass u f p_copy dirs loss s = Inr (out, s')" and "out \<noteq> Accept"
  shows "state s' = state s \<and> directions s' = directions s"
  using assms(1)
proof (cases rule: inner_pass_cases)
  case (neg s1 t)
  then show ?thesis using compute_step_frame [OF neg(1)] by simp
next
  case (rej s1 t s3)
  then show ?thesis using compute_step_frame [OF rej(1)] adjust_by_rho_frame [OF rej(4)]
    by (simp add: set_param_def use_new_d_def)
next
  case (acc s1 t s3)
  with assms(2) show ?thesis by simp
qed

lemma inner_loop_rejected_state:
  assumes "inner_loop n u f p_copy dirs loss s ia acc = Some (Inr (s', False))"
  shows "state s' = state s \<and> directions s' = directions s"
  using assms
proof (induction n arbitrary: s ia acc)
  case 0
  then show ?case by (auto split: if_splits)
next
  case (Suc n)
  show ?case
  proof (cases "ia < max_iter_adj s")
    case False
    with Suc.prems show ?thesis by simp
  next
    case True
    show ?thesis
    proof (cases "inner_pass u f p_copy dirs loss s")
      case (Inl e)
      with True Suc.prems show ?thesis by simp
    next
      case (Inr p)
      obtain out s1 where p: "p = (out, s1)" by (cases p)
      show ?thesis
      proof (cases out)
        case Negative
        with True Inr p Suc.prems
        have "inner_loop n u f p_copy dirs loss s1 ia acc = Some (Inr (s', False))" by simp
        from Suc.IH [OF this] inner_pass_state [of u f p_copy dirs loss s out s1] Inr p Negative
        show ?thesis by simp
      next
        case Reject
        with True Inr p Suc.prems
        have "inner_loop n u f p_copy dirs loss s1 (ia + 1) False = Some (Inr (s', False))" by simp
        from Suc.IH [OF this] inner_pass_state [of u f p_copy dirs loss s out s1] Inr p Reject
        show ?thesis by simp
      next
        case Accept
        with True Inr p Suc.prems show ?thesis by simp
      qed
    qed
  qed
qed

subsection \<open>A rejected first step with a fixed momentum\<close>

lemma setup_fixed:
  "step_setup example_utils wall_objective fixed_optimizer
     = Inr (1, [[1]], [[[- 2]]], fixed_model)"
  by (simp add: fixed_model_def fixed_optimizer_def init_defs model_defs Let_def small_lists
      use_fixed_momentum_def update_fixed_momentum_def)

lemma pass_fixed:
  "inner_pass example_utils wall_objective [[1]] [[[- 2]]] 1 fixed_model
     = Inr (Reject, fixed_model\<lparr>alpha := [1 / 4], alpha_norm := 1 / 4, gamma := 50, radius := 2\<rparr>)"
proof -
  have "sqrt (1 / 16) = 1 / 4"
    by (rule real_sqrt_unique) (simp_all add: power2_eq_square)
  then show ?thesis
    by (simp add: fixed_model_def fixed_optimizer_def init_defs pass_defs Let_def small_lists
        power2_eq_square)
qed

lemma loop_fixed:
  "inner_loop 1 example_utils wall_objective [[1]] [[[- 2]]] 1 fixed_model 1 False
     = Some (Inr (fixed_model\<lparr>alpha := [1 / 4], alpha_norm := 1 / 4, gamma := 50, radius := 2\<rparr>,
                  False))"
proof -
  have "max_iter_adj fixed_model = 2"
    by (simp add: fixed_model_def fixed_optimizer_def init_defs)
  then show ?thesis
    unfolding One_nat_def using pass_fixed by simp
qed

lemma finish_fixed:
  "step_finish (fixed_model\<lparr>alpha := [1 / 4], alpha_norm := 1 / 4, gamma := 50, radius := 2\<rparr>) False
     = fixed_model\<lparr>alpha := [1 / 4], alpha_norm := 1 / 4, gamma := 1 / 10000000000, radius := 2,
                    iter := 1\<rparr>"
proof -
  have "[''momentum'' \<mapsto> [0], ''fixed_momentum_buffer'' \<mapsto> [- 2 :: real]](''momentum'' \<mapsto> [0])
          = [''momentum'' \<mapsto> [0], ''fixed_momentum_buffer'' \<mapsto> [- 2]]"
    by (rule ext) simp
  then show ?thesis
    by (simp add: step_finish_def clear_momentum_def zeros_like_def fixed_model_def
        fixed_optimizer_def init_defs)
qed

section \<open>Properties of normalisation\<close>

lemma tensor_div_one: "map (\<lambda>x. tensor_div x 1) v = map Finite v"
  by (simp add: tensor_div_def)

lemma normalize_finite:
  assumes "DRSOMB_normalize nrm rnd d = Inr r"
  shows "\<exists>n. n \<noteq> 0 \<and> r = map (map (\<lambda>x. Finite (x / n))) d"
proof -
  from assms obtain v_norm0 where
    r: "r = map (map (\<lambda>x. tensor_div x (if v_norm0 = 0 then 1 else v_norm0))) d"
    by (auto simp: DRSOMB_normalize_def Let_def split: sum.splits)
  have "(if v_norm0 = 0 then 1 else v_norm0) \<noteq> 0" by simp
  then show ?thesis unfolding r tensor_div_def by (intro exI [of _ "if v_norm0 = 0 then 1 else v_norm0"]) simp
qed

lemma normalized_exact:
  assumes "normalized d = Inr r"
  shows "\<exists>n. n \<noteq> 0 \<and> r = map (map (\<lambda>x. x / n)) d"
proof -
  from assms obtain q where q: "DRSOMB_normalize linalg_norm (\<lambda>x. x) d = Inr q"
    and r: "r = map (map finite_part) q"
    by (auto simp: normalized_def split: sum.splits)
  from normalize_finite [OF q] obtain n where "n \<noteq> 0" "q = map (map (\<lambda>x. Finite (x / n))) d"
    by blast
  then show ?thesis unfolding r by (intro exI [of _ n]) (simp add: comp_def)
qed

text \<open>
  Claim C10.  A direction whose computed norm is exactly zero is returned unchanged by both
  normalisation routines, whatever the norm routine and the rounding are: the divisor is
  replaced by 1, so every entry of the result is the finite quotient of the entry by 1 and
  no entry is a NaN or an infinity.
\<close>

theorem C10_normalize_zero_norm:
  "(DRSOMB_v_norm nrm rnd direction = Inr 0
      \<longrightarrow> DRSOMB_normalize nrm rnd direction = Inr (map (map Finite) direction))
   \<and> (nrm v = 0 \<longrightarrow> DRSOMF_normalize nrm v = map Finite v)"
  by (simp add: DRSOMB_normalize_def DRSOMF_normalize_def tensor_div_one)

text \<open>
  Zeroed buffers under the exact norm, and a tiny tensor under a norm routine that
  underflows to zero below \<open>10\<^sup>-\<^sup>1\<^sup>6\<^sup>0\<close>.
\<close>

theorem C10_normalize_zero_norm_witness:
  "DRSOMB_v_norm linalg_norm (\<lambda>x. x) [[0, 0], [0]] = Inr 0
   \<and> DRSOMB_normalize linalg_norm (\<lambda>x. x) [[0, 0], [0]] = Inr [[Finite 0, Finite 0], [Finite 0]]
   \<and> linalg_norm [0, 0, 0] = 0
   \<and> DRSOMF_normalize linalg_norm [0, 0, 0] = [Finite 0, Finite 0, Finite 0]
   \<and> DRSOMF_normalize (\<lambda>v. if linalg_norm v < 1 / 10 ^ 160 then 0 else linalg_norm v)
         [1 / 10 ^ 200, 0] = [Finite (1 / 10 ^ 200), Finite 0]"
proof -
  have a: "DRSOMB_v_norm linalg_norm (\<lambda>x. x) [[0, 0], [0]] = Inr 0"
    by (simp add: DRSOMB_v_norm_def linalg_norm_def)
  have b: "linalg_norm [0, 0, 0] = 0"
    by (simp add: linalg_norm_def)
  have "linalg_norm [1 / 10 ^ 200, 0] = 1 / 10 ^ 200"
    by (simp add: linalg_norm_def real_sqrt_divide)
  then have c: "(if linalg_norm [1 / 10 ^ 200, 0] < 1 / 10 ^ 160 then 0
                 else linalg_norm [1 / 10 ^ 200, 0]) = 0"
    by simp
  from C10_normalize_zero_norm [of linalg_norm "\<lambda>x. x" "[[0, 0], [0]]" "[0, 0, 0]"]
    C10_normalize_zero_norm [of "\<lambda>v. if linalg_norm v < 1 / 10 ^ 160 then 0 else linalg_norm v"
      "\<lambda>x. x" "[]" "[1 / 10 ^ 200, 0]"] a b c
  show ?thesis by simp
qed

section \<open>The multiplier chosen by the trust-region solver\<close>




section \<open>Sign of the predicted decrease\<close>

text \<open>
  Claim C3, as the code has it.  With the identity metric (option \<^verbatim>\<open>'a'\<close>), a symmetric
  \<open>Q\<close> and \<open>\<gamma> \<ge> 0\<close>, the predicted decrease
  \<open>trs_est = - 1/2 \<alpha>\<^sup>T Q \<alpha> - c\<^sup>T \<alpha>\<close> that \<^verbatim>\<open>compute_step\<close> returns is never negative:
  on the root-finding path without further conditions, on the fallback path (first
  iteration, or \<open>Q[dim-1, dim-1] < 10\<^sup>-\<^sup>4\<close>) when \<open>c[0] \<le> 0\<close> (the first direction is the
  negative gradient) and \<open>delta_max \<ge> 0\<close>.
\<close>

theorem C3_identity_metric_decrease:
  assumes ls: "lsolve_contract lsolve" and eg: "eigh_contract eigh (Q self)"
    and wf: "wf_mat (length (c self)) (Q self)"
    and g: "0 \<le> gamma self"
    and first: "iter self = 0 \<or> Q self ! (length (c self) - 1) ! (length (c self) - 1) < 1 / 10000
                 \<longrightarrow> c self ! 0 \<le> 0 \<and> 0 \<le> delta_max self"
    and res: "DRSOMF_compute_step eigh lsolve ''a'' self = Inr (self', trs)"
  shows "0 \<le> trs \<and> trs = trs_est_of (Q self) (c self) (alpha self')"
proof -
  from res obtain a nrm where
    sa: "DRSOMF_solve_alpha eigh lsolve self (Q self) (c self) (eye (length (c self))) = Inr (a, nrm)"
    and self': "self' = self\<lparr>alpha := a, alpha_norm := nrm\<rparr>"
    and trs: "trs = trs_est_of (Q self) (c self) a"
    by (auto simp: DRSOMF_compute_step_def split: sum.splits)
  from sa have ne: "c self \<noteq> []"
    by (auto simp: DRSOMF_solve_alpha_def Let_def split: if_splits)
  have "0 \<le> trs_est_of (Q self) (c self) a"
  proof (cases "iter self = 0 \<or> Q self ! (length (c self) - 1) ! (length (c self) - 1) < 1 / 10000")
    case True
    with first have "c self ! 0 \<le> 0" and "0 \<le> delta_max self" by blast+
    with wf ne show ?thesis using g True sa
      by (intro DRSOMF_first_step_trs_nonneg [where self = self]) simp_all
  next
    case False
    with sa ne obtain it lmd act where
      "compute_root eigh lsolve (Q self) (c self) (gamma self) (eye (length (c self)))
         = Inr (it, lmd, a, nrm, act)"
      by (auto simp: DRSOMF_solve_alpha_def Let_def split: if_splits sum.splits)
    with ls eg wf g show ?thesis
      by (rule compute_root_identity_trs_nonneg)
  qed
  then show ?thesis by (simp add: trs self')
qed

lemma C3_run:
  "DRSOMF_compute_step eigh2 lsolve2 ''a''
     \<lparr>Q = [[2, 1], [1, 2]], c = [- 1, 0], G = [[1, 0], [0, 1]], iter = 1, alpha = [],
      alpha_norm = 0, gamma = 1 / 2, gammalb = 1 / 1000000000000, delta_max = 10\<rparr>
   = Inr (\<lparr>Q = [[2, 1], [1, 2]], c = [- 1, 0], G = [[1, 0], [0, 1]], iter = 1,
           alpha = [14 / 45, - 4 / 45], alpha_norm = sqrt (212 / 2025), gamma = 1 / 2,
           gammalb = 1 / 1000000000000, delta_max = 10\<rparr>, 158 / 675)"
  using run_identity_half
  by (simp add: DRSOMF_compute_step_def DRSOMF_solve_alpha_def trs_est_of_def matvec_def
      numeral_2_eq_2 [symmetric])

theorem C3_identity_metric_decrease_witness:
  "DRSOMF_compute_step eigh2 lsolve2 ''a''
     \<lparr>Q = [[2, 1], [1, 2]], c = [- 1, 0], G = [[1, 0], [0, 1]], iter = 1, alpha = [],
      alpha_norm = 0, gamma = 1 / 2, gammalb = 1 / 1000000000000, delta_max = 10\<rparr>
   = Inr (\<lparr>Q = [[2, 1], [1, 2]], c = [- 1, 0], G = [[1, 0], [0, 1]], iter = 1,
           alpha = [14 / 45, - 4 / 45], alpha_norm = sqrt (212 / 2025), gamma = 1 / 2,
           gammalb = 1 / 1000000000000, delta_max = 10\<rparr>, 158 / 675)
   \<and> (0 :: real) \<le> 158 / 675
   \<and> (158 / 675 :: real) = trs_est_of [[2, 1], [1, 2]] [- 1, 0] [14 / 45, - 4 / 45]"
proof -
  let ?self = "\<lparr>Q = [[2, 1], [1, 2]], c = [- 1, 0], G = [[1, 0], [0, 1]], iter = 1, alpha = [],
      alpha_norm = 0, gamma = 1 / 2, gammalb = 1 / 1000000000000, delta_max = 10\<rparr> :: DRSOMF"
  have "eigh_contract eigh2 (Q ?self)" using eigh2_contract_2 [of 2 1 2] by simp
  moreover have "wf_mat (length (c ?self)) (Q ?self)" by (simp add: wf_mat_def)
  moreover have "0 \<le> gamma ?self" by simp
  moreover have "iter ?self = 0 \<or> Q ?self ! (length (c ?self) - 1) ! (length (c ?self) - 1) < 1 / 10000
                 \<longrightarrow> c ?self ! 0 \<le> 0 \<and> 0 \<le> delta_max ?self" by simp
  ultimately show ?thesis
    using C3_identity_metric_decrease [OF lsolve2_contract _ _ _ _ C3_run] C3_run
    by simp
qed

text \<open>
  With the Gram metric (option \<^verbatim>\<open>'p'\<close>) the predicted decrease can be negative although \<open>Q\<close>
  has a positive eigenvalue and \<open>\<gamma> \<in> (0, 1]\<close>: unit directions with inner product \<open>0.7\<close>,
  \<open>c = - G e\<^sub>0\<close>, \<open>Q\<close> with eigenvalues \<open>- 1\<close> and \<open>51\<close>, \<open>\<gamma> = 1/200\<close> give \<open>\<lambda> = 5/4\<close> and
  \<open>trs_est = - 4/15625\<close>.  The step routine expects this: it tests \<^verbatim>\<open>trs_est < 0\<close>.
\<close>

theorem C3_gram_metric_counterexample:
  "DRSOMF_compute_step eigh2 lsolve2 ''p''
     \<lparr>Q = [[25, 26], [26, 25]], c = [- 1, - 7 / 10], G = [[1, 7 / 10], [7 / 10, 1]], iter = 1,
      alpha = [], alpha_norm = 0, gamma = 1 / 200, gammalb = 1 / 1000000000000, delta_max = 10\<rparr>
   = Inr (\<lparr>Q = [[25, 26], [26, 25]], c = [- 1, - 7 / 10], G = [[1, 7 / 10], [7 / 10, 1]],
           iter = 1, alpha = [- 28 / 125, 32 / 125], alpha_norm = sqrt (2768 / 78125),
           gamma = 1 / 200, gammalb = 1 / 1000000000000, delta_max = 10\<rparr>, - 4 / 15625)
   \<and> eigh2 [[25, 26], [26, 25]] = [- 1, 51]"
  by (simp add: DRSOMF_compute_step_def DRSOMF_solve_alpha_def trs_est_of_def eval_defs eigh2_25_26)

section \<open>The aggressive update of the regularisation weight\<close>

lemma ln_below_ratio:
  fixes gam b2 :: real
  assumes "0 < gam" "gam < 1" "0 < b2"
  shows "min (gam / b2) (ln gam) = ln gam"
proof -
  have "ln gam < 0" using assms by simp
  moreover have "0 < gam / b2" using assms by simp
  ultimately show ?thesis by simp
qed

lemma aggressive_gamma_floor:
  assumes "0 < gam" "gam < 1" "0 < glb" "b2 \<noteq> 0"
  shows "aggressive_gamma gam glb b2 = glb"
proof -
  have "ln gam < 0" using assms by simp
  moreover have "min (gam / b2) (ln gam) \<le> ln gam" by simp
  ultimately have "min (gam / b2) (ln gam) < glb" using assms(3) by linarith
  then have "max glb (min (gam / b2) (ln gam)) = glb" by (rule max_absorb1 [OF less_imp_le])
  then show ?thesis using assms(1) by (simp only: aggressive_gamma_def if_True)
qed

text \<open>
  Claim C9.  When the aggressive branch fires (\<open>\<rho> > \<zeta>\<^sub>1\<close> and \<open>\<rho> \<ge> \<zeta>\<^sub>2\<close>) with
  \<open>0 < \<gamma> < 1\<close> and a positive lower bound, the update
  \<open>\<gamma> \<leftarrow> max(gamma_lb, min(\<gamma> / \<beta>\<^sub>2, ln \<gamma>))\<close> sets \<open>\<gamma>\<close> to \<open>gamma_lb\<close> at once; for \<open>\<beta>\<^sub>2 > 0\<close> the
  minimum is \<open>ln \<gamma>\<close>.  (\<^verbatim>\<open>DRSOMF.step\<close> of drsomnd\_profile.py uses the same expression.)
\<close>

theorem C9_aggressive_update_jumps_to_floor:
  assumes "\<not> ratio_le rho (zeta1 (adjrule self))" and "ratio_ge rho (zeta2 (adjrule self))"
    and "0 < gamma self" and "gamma self < 1" and "0 < gammalb self"
    and "beta2 (adjrule self) \<noteq> 0" and "decay_radius_step (decayrule self) \<noteq> 0"
  shows "\<exists>s. adjust_by_rho rho self = Inr s \<and> gamma s = gammalb self
              \<and> gamma s = max (gammalb self) (min (gamma self / beta2 (adjrule self)) (ln (gamma self)))
              \<and> (0 < beta2 (adjrule self)
                   \<longrightarrow> min (gamma self / beta2 (adjrule self)) (ln (gamma self)) = ln (gamma self))"
  using assms aggressive_gamma_floor [of "gamma self" "gammalb self" "beta2 (adjrule self)"]
    ln_below_ratio [of "gamma self" "beta2 (adjrule self)"]
  by (auto simp: adjust_by_rho_def aggressive_gamma_def)

theorem C9_aggressive_update_jumps_to_floor_witness:
  "adjust_by_rho (Finite (9 / 10)) ((scalar_optimizer 1)\<lparr>gamma := 1 / 2\<rparr>)
     = Inr ((scalar_optimizer 1)\<lparr>gamma := 1 / 10000000000, radius := 10\<rparr>)
   \<and> min ((1 / 2) / 30) (ln (1 / 2)) = ln (1 / 2 :: real)"
proof -
  let ?S = "(scalar_optimizer 1)\<lparr>gamma := 1 / 2\<rparr>"
  have h: "\<not> ratio_le (Finite (9 / 10)) (zeta1 (adjrule ?S))"
    "ratio_ge (Finite (9 / 10)) (zeta2 (adjrule ?S))"
    "0 < gamma ?S" "gamma ?S < 1" "0 < gammalb ?S"
    "beta2 (adjrule ?S) \<noteq> 0" "decay_radius_step (decayrule ?S) \<noteq> 0"
    by (simp_all add: init_defs)
  have e: "adjust_by_rho (Finite (9 / 10)) ?S
        = Inr (?S\<lparr>gamma := aggressive_gamma (1 / 2) (1 / 10000000000) 30, radius := 10\<rparr>)"
    by (simp add: adjust_by_rho_def init_defs)
  from C9_aggressive_update_jumps_to_floor [OF h]
  obtain s where s: "adjust_by_rho (Finite (9 / 10)) ?S = Inr s"
    and g: "gamma s = gammalb ?S"
    and m: "0 < beta2 (adjrule ?S)
            \<longrightarrow> min (gamma ?S / beta2 (adjrule ?S)) (ln (gamma ?S)) = ln (gamma ?S)"
    by blast
  from s e have "s = ?S\<lparr>gamma := aggressive_gamma (1 / 2) (1 / 10000000000) 30, radius := 10\<rparr>"
    by simp
  with g have "aggressive_gamma (1 / 2) (1 / 10000000000) 30 = gammalb ?S"
    by simp
  also have "gammalb ?S = 1 / 10000000000" by (simp add: init_defs)
  finally have a: "aggressive_gamma (1 / 2) (1 / 10000000000) 30 = 1 / 10000000000" .
  have "0 < beta2 (adjrule ?S)" and "gamma ?S = 1 / 2" and "beta2 (adjrule ?S) = 30"
    by (simp_all add: init_defs)
  with m have "min ((1 / 2) / 30) (ln (1 / 2)) = ln (1 / 2 :: real)"
    by (simp only:) 
  with e a show ?thesis by (simp only:) simp
qed

section \<open>Rejected trial steps\<close>

text \<open>
  Claim C5.  When a trial step is rejected, the parameters after the restoration from the
  snapshot are those before the trial step was applied.
\<close>

theorem C5_reject_restores_parameters:
  assumes pass: "inner_pass u f p_copy dirs loss self = Inr (Reject, s')"
    and snap: "p_copy = clone_param self"
  shows "params s' = params self"
proof -
  from pass obtain s1 t s3 where cs: "DRSOMB_compute_step u self = Inr (s1, t)"
    and adj: "adjust_by_rho (tensor_div (loss - loss_at f (params (use_new_d s1 (build_direction (params s1) dirs (alpha s1))))) t)
           (use_new_d s1 (build_direction (params s1) dirs (alpha s1))) = Inr s3"
    and s': "s' = set_param s3 p_copy"
    by (rule inner_pass_Reject)
  have "length (params s3) = length (params s1)"
    using adjust_by_rho_frame(1) [OF adj] by (simp add: length_params_use_new_d)
  also have "\<dots> = length p_copy"
    using compute_step_frame(1) [OF cs] snap by (simp add: clone_param_def)
  finally have "params s' = p_copy"
    unfolding s' by (rule params_set_param)
  then show ?thesis using snap by (simp add: clone_param_def)
qed

theorem C5_reject_restores_parameters_witness:
  "inner_pass example_utils wall_objective (clone_param rejecting_model) [[[- 2]], [[3]]] 1 rejecting_model
     = Inr (Reject, rejecting_model\<lparr>alpha := [1 / 4, 0], alpha_norm := 1 / 4, gamma := 50, radius := 2\<rparr>)
   \<and> params (rejecting_model\<lparr>alpha := [1 / 4, 0], alpha_norm := 1 / 4, gamma := 50, radius := 2\<rparr>)
       = params rejecting_model
   \<and> params rejecting_model = [[1]]"
proof -
  have p: "clone_param rejecting_model = [[1]]"
    by (simp add: clone_param_def rejecting_model_def rejecting_optimizer_def init_defs)
  have r: "inner_pass example_utils wall_objective (clone_param rejecting_model) [[[- 2]], [[3]]] 1
             rejecting_model
           = Inr (Reject, rejecting_model\<lparr>alpha := [1 / 4, 0], alpha_norm := 1 / 4, gamma := 50,
                                        radius := 2\<rparr>)"
    unfolding p by (rule pass_rejecting)
  from C5_reject_restores_parameters [OF r refl] r p show ?thesis
    by (simp add: clone_param_def)
qed

section \<open>Restart after the final rejection\<close>

text \<open>
  Claim C4, as the code has it.  When the inner loop ends without an accepted step, the step
  call ends with \<open>gamma = gamma_lb\<close>, and \<^verbatim>\<open>_clear_momentum\<close> has zeroed, in the state
  dictionary of every parameter, the buffer under each configured direction name
  (\<^verbatim>\<open>self.directions\<close>): a buffer that was there when the inner loop began is now the zero
  tensor of the same shape, and its entries are exactly zero.
\<close>

theorem C4_restart_after_final_rejection:
  assumes "step_setup u f self = Inr (loss, p_copy, dirs, s3)"
    and "inner_loop fuel u f p_copy dirs loss s3 1 False = Some (Inr (s4, False))"
  shows "\<exists>s'. step fuel u (Some f) self = Some (Inr (loss, s'))
              \<and> gamma s' = gammalb s'
              \<and> directions s' = directions s3 \<and> length (state s') = length (state s3)
              \<and> (\<forall>i < length (state s3). \<forall>k \<in> set (directions s3).
                    (state s' ! i) k = map_option zeros_like ((state s3 ! i) k))
              \<and> (\<forall>st \<in> set (state s'). \<forall>k \<in> set (directions s'). \<forall>t.
                     st k = Some t \<longrightarrow> (\<forall>x \<in> set t. x = 0))"
proof (intro exI conjI)
  have fr: "state s4 = state s3" "directions s4 = directions s3"
    using inner_loop_rejected_state [OF assms(2)] by simp_all
  have st: "state (step_finish s4 False)
      = map (\<lambda>st k. if k \<in> set (directions s3) then map_option zeros_like (st k) else st k) (state s3)"
    using state_clear_momentum [of "s4\<lparr>iter := iter s4 + 1\<rparr>"]
    by (simp add: step_finish_def fr)
  show "step fuel u (Some f) self = Some (Inr (loss, step_finish s4 False))"
    using assms by (rule step_final_rejection)
  show "gamma (step_finish s4 False) = gammalb (step_finish s4 False)"
    by (simp add: step_finish_rejected)
  show "directions (step_finish s4 False) = directions s3"
    by (simp add: step_finish_def clear_momentum_def fr)
  show "length (state (step_finish s4 False)) = length (state s3)"
    by (simp add: st)
  show "\<forall>i < length (state s3). \<forall>k \<in> set (directions s3).
          (state (step_finish s4 False) ! i) k = map_option zeros_like ((state s3 ! i) k)"
    by (simp add: st)
  show "\<forall>st \<in> set (state (step_finish s4 False)). \<forall>k \<in> set (directions (step_finish s4 False)). \<forall>t.
          st k = Some t \<longrightarrow> (\<forall>x \<in> set t. x = 0)"
    using step_finish_rejected(3) [of s4] by (simp add: buffers_zero_def)
qed

text \<open>
  A rejected step of the optimizer at \<open>x = 1\<close>: the momentum buffer \<open>[3]\<close> becomes \<open>[0]\<close> and
  \<open>gamma\<close> the lower bound \<open>10\<^sup>-\<^sup>1\<^sup>0\<close>.
\<close>

theorem C4_restart_after_final_rejection_witness:
  "step 1 example_utils (Some wall_objective) rejecting_optimizer
     = Some (Inr (1, rejecting_model\<lparr>alpha := [1 / 4, 0], alpha_norm := 1 / 4,
                       gamma := 1 / 10000000000, radius := 2, iter := 1,
                       state := [[''momentum'' \<mapsto> [0]]]\<rparr>))
   \<and> state rejecting_model = [[''momentum'' \<mapsto> [3]]]
   \<and> directions rejecting_model = [''momentum'']
   \<and> gammalb rejecting_optimizer = 1 / 10000000000"
proof -
  from C4_restart_after_final_rejection [OF setup_rejecting loop_rejecting]
  obtain s' where "step 1 example_utils (Some wall_objective) rejecting_optimizer = Some (Inr (1, s'))"
    by blast
  moreover have "step 1 example_utils (Some wall_objective) rejecting_optimizer
      = Some (Inr (1, step_finish (rejecting_model\<lparr>alpha := [1 / 4, 0], alpha_norm := 1 / 4,
                                                    gamma := 50, radius := 2\<rparr>) False))"
    using step_final_rejection(1) [OF setup_rejecting loop_rejecting] .
  ultimately show ?thesis
    by (simp add: finish_rejecting) (simp add: rejecting_model_def rejecting_optimizer_def init_defs)
qed

text \<open>
  Not every buffer of the state is zeroed.  With a fixed momentum (\<^verbatim>\<open>fixed_momentum >= 0\<close>)
  the direction is kept under the key \<^verbatim>\<open>fixed_momentum_buffer\<close>, which is none of
  \<^verbatim>\<open>self.directions\<close>: the first step of such an optimizer at \<open>x = 1\<close> is rejected, \<open>gamma\<close> is
  reset, and the step call ends with the buffer \<open>[- 2]\<close>.
\<close>

theorem C4_fixed_momentum_buffer_counterexample:
  "step 1 example_utils (Some wall_objective) fixed_optimizer
     = Some (Inr (1, fixed_model\<lparr>alpha := [1 / 4], alpha_norm := 1 / 4,
                       gamma := 1 / 10000000000, radius := 2, iter := 1\<rparr>))
   \<and> state fixed_model = [[''momentum'' \<mapsto> [0], ''fixed_momentum_buffer'' \<mapsto> [- 2]]]
   \<and> state fixed_optimizer = [[''momentum'' \<mapsto> [0]]]
   \<and> fixed_momentum fixed_optimizer = 1 / 2"
proof -
  have "step 1 example_utils (Some wall_objective) fixed_optimizer
      = Some (Inr (1, step_finish (fixed_model\<lparr>alpha := [1 / 4], alpha_norm := 1 / 4,
                                                gamma := 50, radius := 2\<rparr>) False))"
    using step_final_rejection(1) [OF setup_fixed loop_fixed] .
  then show ?thesis
    by (simp add: finish_fixed) (simp add: fixed_model_def fixed_optimizer_def init_defs zeros_like_def)
qed

section \<open>The value returned after the final rejection\<close>

text \<open>
  Claim C8.  When the inner loop ends without an accepted step, the step call returns
  normally, and what it returns is the loss the closure computed at the start of the call.
\<close>

theorem C8_final_rejection_returns_loss:
  assumes "step_setup u f self = Inr (loss, p_copy, dirs, s3)"
    and "inner_loop fuel u f p_copy dirs loss s3 1 False = Some (Inr (s4, False))"
  shows "step fuel u (Some f) self = Some (Inr (loss, step_finish s4 False))
         \<and> loss = loss_at f (params (adjust_gamma_and_radius u self))"
  using step_final_rejection [OF assms] by simp

theorem C8_final_rejection_returns_loss_witness:
  "step 1 example_utils (Some wall_objective) rejecting_optimizer
     = Some (Inr (1, step_finish (rejecting_model\<lparr>alpha := [1 / 4, 0], alpha_norm := 1 / 4,
                                                   gamma := 50, radius := 2\<rparr>) False))
   \<and> loss_at wall_objective (params (adjust_gamma_and_radius example_utils rejecting_optimizer)) = 1"
  using C8_final_rejection_returns_loss [OF setup_rejecting loop_rejecting] by simp

section \<open>Symmetry of the reduced model\<close>

text \<open>
  Claim C6.  For every list of directions, the matrix \<open>Q\<close> built from Hessian-vector
  products, the matrix \<open>Q\<close> built by interpolation and the metric \<open>G\<close> are symmetric, and so
  are the \<open>Q\<close> and \<open>G\<close> that \<^verbatim>\<open>update_trust_region\<close> stores.
\<close>

theorem C6_Q_and_G_symmetric:
  assumes "i < length dirs" and "j < length dirs"
  shows "(\<forall>Qm. compute_Q_via_hvp f self dirs style = Inr Qm \<longrightarrow> Qm ! i ! j = Qm ! j ! i)
       \<and> (\<forall>Qm self'. compute_Q_via_interpolation u f self dirs fx cv p_copy dlt = Inr (Qm, self')
              \<longrightarrow> Qm ! i ! j = Qm ! j ! i)
       \<and> build_G self dirs ! i ! j = build_G self dirs ! j ! i
       \<and> (\<forall>s. update_trust_region u f self p_copy dirs fx = Inr s
                \<and> int (iter self) mod qp_freq (decayrule self) = 0
              \<longrightarrow> Q s ! i ! j = Q s ! j ! i \<and> G s ! i ! j = G s ! j ! i)"
proof (intro conjI allI impI)
  fix Qm assume "compute_Q_via_hvp f self dirs style = Inr Qm"
  then show "Qm ! i ! j = Qm ! j ! i" using assms by (rule compute_Q_via_hvp_symmetric)
next
  fix Qm self' assume "compute_Q_via_interpolation u f self dirs fx cv p_copy dlt = Inr (Qm, self')"
  then show "Qm ! i ! j = Qm ! j ! i" using assms by (rule compute_Q_via_interpolation_symmetric)
next
  show "build_G self dirs ! i ! j = build_G self dirs ! j ! i"
    using assms by (rule build_G_symmetric)
next
  fix s assume a: "update_trust_region u f self p_copy dirs fx = Inr s
                \<and> int (iter self) mod qp_freq (decayrule self) = 0"
  then show "Q s ! i ! j = Q s ! j ! i"
    using update_trust_region_symmetric(1) [of u f self p_copy dirs fx s i j] assms by simp
  from a show "G s ! i ! j = G s ! j ! i"
    using update_trust_region_symmetric(2) [of u f self p_copy dirs fx s i j] assms by simp
qed

theorem C6_Q_and_G_symmetric_witness:
  "update_trust_region fitted_utils quadratic_objective (plane_optimizer AutomaticDiff) [[1, 0]]
      [[[- 2, - 1]], [[0, 1]]] 1
     = Inr ((plane_optimizer AutomaticDiff)\<lparr>Q := [[16, - 6], [- 6, 4]], c := [- 5, 1],
              G := [[1, 0], [0, 1]], grad := [[0, 0]], ghg := 16\<rparr>)
   \<and> update_trust_region fitted_utils quadratic_objective (plane_optimizer Interpolation) [[1, 0]]
      [[[- 2, - 1]], [[0, 1]]] 1
     = Inr ((plane_optimizer Interpolation)\<lparr>Q := [[16, - 6], [- 6, 4]], c := [- 5, 1],
              G := [[1, 0], [0, 1]], ghg := 16\<rparr>)
   \<and> [[16, - 6], [- 6, 4 :: real]] ! 0 ! 1 = [[16, - 6], [- 6, 4]] ! 1 ! 0
   \<and> [[1, 0], [0, 1 :: real]] ! 0 ! 1 = [[1, 0], [0, 1]] ! 1 ! 0"
proof -
  have ij: "(0::nat) < length [[[- 2, - 1]], [[0, 1 :: real]]]" "(1::nat) < length [[[- 2, - 1]], [[0, 1 :: real]]]"
    by simp_all
  have due: "int (iter (plane_optimizer qpm)) mod qp_freq (decayrule (plane_optimizer qpm)) = 0" for qpm
    by (simp add: plane_optimizer_def init_defs)
  from C6_Q_and_G_symmetric [OF ij, of quadratic_objective "plane_optimizer AutomaticDiff" 0
        fitted_utils 1 "[- 5, 1]" "[[1, 0]]" "1 / 1000"] run_hvp due [of AutomaticDiff]
  have "[[16, - 6], [- 6, 4 :: real]] ! 0 ! 1 = [[16, - 6], [- 6, 4]] ! 1 ! 0
        \<and> [[1, 0], [0, 1 :: real]] ! 0 ! 1 = [[1, 0], [0, 1]] ! 1 ! 0"
    by simp
  with run_hvp run_interpolation show ?thesis by simp
qed

section \<open>Retries after a negative predicted decrease\<close>

text \<open>
  Claim C1 against the code.  In the inner loop of \<^verbatim>\<open>step\<close>, a pass whose predicted decrease
  is negative (\<^verbatim>\<open>trs_est < 0\<close>) sets \<open>gamma\<close> to \<open>max(gamma \<cdot> \<beta>\<^sub>1, 10\<^sup>-\<^sup>4)\<close> and the radius to
  \<open>max(radius / \<surd>\<beta>\<^sub>1, 10\<^sup>-\<^sup>1\<^sup>2)\<close> and leaves the pass by \<^verbatim>\<open>continue\<close>, which skips the
  \<^verbatim>\<open>iter_adj += 1\<close> at the end of the loop body: the counter and the acceptance flag are as
  before, whatever the solver is.  So the guard \<^verbatim>\<open>iter_adj < self._max_iter_adj\<close> does not
  bound these passes: as long as the solver predicts a negative decrease for the reduced
  model, the loop goes on, and when it always does, no amount of passes ends the loop.
\<close>

theorem C1_negative_retry_not_counted:
  assumes ia: "iter_adj < max_iter_adj self"
    and neg: "\<forall>s. loop_frame self s \<longrightarrow> (\<exists>s1 t. DRSOMB_compute_step u s = Inr (s1, t) \<and> t < 0)"
  shows "(\<exists>s1 t. DRSOMB_compute_step u self = Inr (s1, t) \<and> t < 0
            \<and> inner_pass u f p_copy dirs loss self
                = Inr (Negative,
                       s1\<lparr>gamma := max (gamma self * beta1 (adjrule self)) (1 / 10000),
                          radius := max (radius self / sqrt (beta1 (adjrule self)))
                                      (1 / 1000000000000)\<rparr>)
            \<and> inner_loop (Suc n) u f p_copy dirs loss self iter_adj acc_step
                = inner_loop n u f p_copy dirs loss
                    (s1\<lparr>gamma := max (gamma self * beta1 (adjrule self)) (1 / 10000),
                        radius := max (radius self / sqrt (beta1 (adjrule self)))
                                    (1 / 1000000000000)\<rparr>)
                    iter_adj acc_step)
         \<and> (\<forall>m. inner_loop m u f p_copy dirs loss self iter_adj acc_step = None)"
proof (intro conjI allI)
  have fr0: "loop_frame self self" by (simp add: loop_frame_def)
  with neg obtain s1 t where cs: "DRSOMB_compute_step u self = Inr (s1, t)" and t: "t < 0"
    by blast
  have fr: "gamma s1 = gamma self" "radius s1 = radius self" "adjrule s1 = adjrule self"
    using compute_step_frame [OF cs] by simp_all
  have pass: "inner_pass u f p_copy dirs loss self
         = Inr (Negative,
                s1\<lparr>gamma := max (gamma self * beta1 (adjrule self)) (1 / 10000),
                   radius := max (radius self / sqrt (beta1 (adjrule self))) (1 / 1000000000000)\<rparr>)"
    using cs t by (simp add: inner_pass_def fr)
  show "\<exists>s1 t. DRSOMB_compute_step u self = Inr (s1, t) \<and> t < 0
            \<and> inner_pass u f p_copy dirs loss self
                = Inr (Negative,
                       s1\<lparr>gamma := max (gamma self * beta1 (adjrule self)) (1 / 10000),
                          radius := max (radius self / sqrt (beta1 (adjrule self)))
                                      (1 / 1000000000000)\<rparr>)
            \<and> inner_loop (Suc n) u f p_copy dirs loss self iter_adj acc_step
                = inner_loop n u f p_copy dirs loss
                    (s1\<lparr>gamma := max (gamma self * beta1 (adjrule self)) (1 / 10000),
                        radius := max (radius self / sqrt (beta1 (adjrule self)))
                                    (1 / 1000000000000)\<rparr>)
                    iter_adj acc_step"
    using cs t pass inner_loop_Suc(2) [OF ia pass] by blast
  fix m
  from neg have "\<And>s. loop_frame self s \<Longrightarrow> \<exists>s1 t. DRSOMB_compute_step u s = Inr (s1, t) \<and> t < 0"
    by blast
  then show "inner_loop m u f p_copy dirs loss self iter_adj acc_step = None"
    using fr0 ia by (rule inner_loop_always_negative)
qed

text \<open>
  For \<open>f(x) = |x|\<close> at \<open>x = - 1/10\<close> with a fixed momentum of \<open>1/2\<close>, the buffer \<open>- 4\<close> and a
  budget of \<open>15\<close>, the single direction is \<open>- 1\<close>, so \<open>Q = [[0]]\<close>, \<open>c = [1]\<close>, \<open>G = [[1]]\<close>.  With the
  solver of drsomnd\_profile.py the step is \<open>\<alpha> = [10\<^sup>-\<^sup>4]\<close> whatever \<open>gamma\<close> is, the predicted
  decrease is \<open>- 10\<^sup>-\<^sup>4\<close> in every pass, and the loop, and with it \<^verbatim>\<open>step\<close>, is still running
  after any number of passes.
\<close>

theorem C1_negative_retry_not_counted_witness:
  "max_iter_adj stuck_optimizer = 15
   \<and> step_setup example_utils abs_objective stuck_optimizer
       = Inr (1 / 10, [[- 1 / 10]], [[[- 1]]], stuck_model)
   \<and> DRSOMB_compute_step example_utils stuck_model
       = Inr (stuck_model\<lparr>alpha := [1 / 10000], alpha_norm := 1 / 10000\<rparr>, - 1 / 10000)
   \<and> (\<forall>m. inner_loop m example_utils abs_objective [[- 1 / 10]] [[[- 1]]] (1 / 10) stuck_model 1 False
            = None)
   \<and> (\<forall>m. step m example_utils (Some abs_objective) stuck_optimizer = None)"
proof -
  have b: "(1 :: int) < max_iter_adj stuck_model"
    by (simp add: stuck_model_def stuck_optimizer_def init_defs)
  have "sqrt (1 / 100000000) = 1 / 10000"
    by (rule real_sqrt_unique) (simp_all add: power2_eq_square)
  then have cs: "DRSOMB_compute_step example_utils stuck_model
       = Inr (stuck_model\<lparr>alpha := [1 / 10000], alpha_norm := 1 / 10000\<rparr>, - 1 / 10000)"
    by (simp add: DRSOMB_compute_step_def example_utils_def TRS_like_def DRSOMF_solve_alpha_def
        trs_est_of_def norm_tr_def matvec_def linalg_norm_def Let_def stuck_model_def
        stuck_optimizer_def init_defs)
  have loop: "\<forall>m. inner_loop m example_utils abs_objective [[- 1 / 10]] [[[- 1]]] (1 / 10)
                  stuck_model 1 False = None"
    using C1_negative_retry_not_counted [of 1 stuck_model example_utils abs_objective
        "[[- 1 / 10]]" "[[[- 1]]]" "1 / 10" 0 False] b stuck_negative
    by blast
  then have "\<forall>m. step m example_utils (Some abs_objective) stuck_optimizer = None"
    by (simp add: step_def setup_stuck)
  with loop cs setup_stuck show ?thesis
    by (simp add: stuck_optimizer_def init_defs)
qed

text \<open>
  \<^verbatim>\<open>DRSOMF.step\<close> of drsomnd\_profile.py has the same loop, with the solver in the same file.
  For \<open>f(x, y) = 12.5 x\<^sup>2 + 13.75 x y + 2.1875 y\<^sup>2 - x\<close> at the origin with the momentum buffer
  \<open>(3, 4)\<close>, the directions are \<open>(1, 0)\<close> and \<open>(0.6, 0.8)\<close>, so \<open>Q = [[25, 26], [26, 25]]\<close>,
  \<open>c = [- 1, - 0.6]\<close> and, with option \<^verbatim>\<open>'p'\<close>, \<open>G = [[1, 0.6], [0.6, 1]]\<close>.  From
  \<open>gamma = 10\<^sup>-\<^sup>1\<^sup>2\<close> the first pass predicts a negative decrease, and so does the second one at
  \<open>gamma = max(10\<^sup>-\<^sup>1\<^sup>2 \<cdot> 50, 10\<^sup>-\<^sup>4) = 10\<^sup>-\<^sup>4\<close>: two passes that a budget of \<open>2\<close> does not count.
\<close>

lemma DRSOMF_two_negative_passes:
  "(\<exists>s t. DRSOMF_compute_step eigh2 lsolve2 ''p''
            \<lparr>Q = [[25, 26], [26, 25]], c = [- 1, - 3 / 5], G = [[1, 3 / 5], [3 / 5, 1]], iter = 1,
             alpha = [], alpha_norm = 0, gamma = 1 / 1000000000000,
             gammalb = 1 / 1000000000000, delta_max = 10\<rparr> = Inr (s, t) \<and> t < 0)
   \<and> (\<exists>s t. DRSOMF_compute_step eigh2 lsolve2 ''p''
            \<lparr>Q = [[25, 26], [26, 25]], c = [- 1, - 3 / 5], G = [[1, 3 / 5], [3 / 5, 1]], iter = 1,
             alpha = [], alpha_norm = 0, gamma = 1 / 10000,
             gammalb = 1 / 1000000000000, delta_max = 10\<rparr> = Inr (s, t) \<and> t < 0)
   \<and> max (1 / 1000000000000 * 50) (1 / 10000) = (1 / 10000 :: real)"
  by (simp add: DRSOMF_compute_step_def DRSOMF_solve_alpha_def trs_est_of_def eval_defs eigh2_25_26)


end
